theory Spec2Isabelle
  imports Main
begin

section \<open>The loader \<^verbatim>\<open>load_tweets.py\<close>: values and Python primitives\<close>

text \<open>
  The loader receives each tweet as the object \<^verbatim>\<open>json.loads\<close> built from one input line.
  Such an object is \<^verbatim>\<open>None\<close>, a bool, an int, a float, a str, a list or a dict with str keys.
  The loader performs no arithmetic on numbers: it only prints them with \<^verbatim>\<open>str\<close>, tests them
  for truth and hands them to the database. A float is therefore carried by the text
  \<^verbatim>\<open>str\<close> gives for it. A dict is the list of its items in insertion order; a lookup
  takes the first item with the key. A \<open>char\<close> is a code point below 256, so the functions
  that Python applies per code point (indexing, lowering and stripping a str, its length)
  agree with the model on text of such code points.
\<close>

datatype json =
    JNull
  | JBool bool
  | JInt int
  | JFloat string
  | JStr string
  | JArr "json list"
  | JObj "(string \<times> json) list"

text \<open>
  The exceptions that can leave the loader's code: Python's own, the two integrity errors
  of the database that the schema described in the specification can raise, and the refusal
  of a str that holds the null character.
\<close>

datatype error =
    KeyError
  | TypeError
  | IndexError
  | AttributeError
  | NotNullViolation
  | ForeignKeyViolation
  | NullCharacter

text \<open>A computation that may raise: \<open>Inl\<close> is the exception, \<open>Inr\<close> the value.\<close>

definition rbind :: "error + 'a \<Rightarrow> ('a \<Rightarrow> error + 'b) \<Rightarrow> error + 'b" where
  "rbind r f = (case r of Inl e \<Rightarrow> Inl e | Inr a \<Rightarrow> f a)"

text \<open>Evaluating a list of expressions from left to right; the first exception ends it.\<close>

fun rmap :: "('a \<Rightarrow> error + 'b) \<Rightarrow> 'a list \<Rightarrow> error + 'b list" where
  "rmap f [] = Inr []"
| "rmap f (x # xs) = rbind (f x) (\<lambda>y. rbind (rmap f xs) (\<lambda>ys. Inr (y # ys)))"

text \<open>
  A dict display \<^verbatim>\<open>{'a': e1, 'b': e2, ...}\<close>: the values are evaluated in order, and the
  first exception ends the evaluation.
\<close>

fun rdict :: "(string \<times> (error + json)) list \<Rightarrow> error + (string \<times> json) list" where
  "rdict [] = Inr []"
| "rdict ((k, r) # kvs) = rbind r (\<lambda>v. rbind (rdict kvs) (\<lambda>row. Inr ((k, v) # row)))"

subsection \<open>Subscription, \<^verbatim>\<open>get\<close>, iteration, truth\<close>

text \<open>\<^verbatim>\<open>x['k']\<close>: only a dict can be subscripted by a str.\<close>

fun py_item :: "json \<Rightarrow> string \<Rightarrow> error + json" where
  "py_item (JObj kvs) k = (case map_of kvs k of None \<Rightarrow> Inl KeyError | Some v \<Rightarrow> Inr v)"
| "py_item _ k = Inl TypeError"

text \<open>\<^verbatim>\<open>x[i]\<close> for the literal indices 0 and 1 the loader uses.\<close>

fun py_index :: "json \<Rightarrow> nat \<Rightarrow> error + json" where
  "py_index (JArr xs) i = (if i < length xs then Inr (xs ! i) else Inl IndexError)"
| "py_index (JStr s) i = (if i < length s then Inr (JStr [s ! i]) else Inl IndexError)"
| "py_index (JObj kvs) i = Inl KeyError"
| "py_index _ i = Inl TypeError"

text \<open>\<^verbatim>\<open>x.get('k', d)\<close>: a method of dict only.\<close>

fun py_get :: "json \<Rightarrow> string \<Rightarrow> json \<Rightarrow> error + json" where
  "py_get (JObj kvs) k d = Inr (case map_of kvs k of None \<Rightarrow> d | Some v \<Rightarrow> v)"
| "py_get _ k d = Inl AttributeError"

text \<open>\<^verbatim>\<open>for x in v\<close>: the elements of a list, the keys of a dict, the characters of a str.\<close>

fun py_iter :: "json \<Rightarrow> error + json list" where
  "py_iter (JArr xs) = Inr xs"
| "py_iter (JObj kvs) = Inr (map (\<lambda>kv. JStr (fst kv)) kvs)"
| "py_iter (JStr s) = Inr (map (\<lambda>c. JStr [c]) s)"
| "py_iter _ = Inl TypeError"

fun py_truth :: "json \<Rightarrow> bool" where
  "py_truth JNull = False"
| "py_truth (JBool b) = b"
| "py_truth (JInt i) = (i \<noteq> 0)"
| "py_truth (JFloat r) = (r \<noteq> ''0.0'' \<and> r \<noteq> ''-0.0'')"
| "py_truth (JStr s) = (s \<noteq> [])"
| "py_truth (JArr xs) = (xs \<noteq> [])"
| "py_truth (JObj kvs) = (kvs \<noteq> [])"

subsection \<open>\<^verbatim>\<open>str.replace\<close> and \<^verbatim>\<open>remove_nulls\<close>\<close>

text \<open>
  \<^verbatim>\<open>s.replace(old, new)\<close> scans \<open>s\<close> from the left and replaces each occurrence of \<open>old\<close>
  that does not overlap an earlier one. With an empty \<open>old\<close>, Python puts \<open>new\<close> before
  every character and at the end.
\<close>

function replace_from :: "string \<Rightarrow> string \<Rightarrow> string \<Rightarrow> string" where
  "replace_from old new s =
     (if s = [] then []
      else if old \<noteq> [] \<and> take (length old) s = old
        then new @ replace_from old new (drop (length old) s)
      else hd s # replace_from old new (tl s))"
  by pat_completeness auto
termination
  by (relation "measure (\<lambda>(old, new, s). length s)") auto

declare replace_from.simps [simp del]

definition replace :: "string \<Rightarrow> string \<Rightarrow> string \<Rightarrow> string" where
  "replace s old new =
     (if old = [] then new @ concat (map (\<lambda>c. c # new) s) else replace_from old new s)"

text \<open>
  \<^verbatim>\<open>
  def remove_nulls(s):
      if s is None:
          return None
      else:
          return s.replace('\x00','')
  \<close>
  Only a str has the method \<^verbatim>\<open>replace\<close>; on any other value that is not \<^verbatim>\<open>None\<close> the
  attribute lookup raises.
\<close>

fun remove_nulls :: "json \<Rightarrow> error + json" where
  "remove_nulls JNull = Inr JNull"
| "remove_nulls (JStr s) = Inr (JStr (replace s [CHR 0x00] []))"
| "remove_nulls _ = Inl AttributeError"

subsection \<open>\<^verbatim>\<open>str\<close>, \<^verbatim>\<open>lower\<close>, \<^verbatim>\<open>split\<close>, \<^verbatim>\<open>strip\<close>\<close>

function digits :: "nat \<Rightarrow> string" where
  "digits n =
     (if n < 10 then [char_of (48 + n)]
      else digits (n div 10) @ [char_of (48 + n mod 10)])"
  by pat_completeness auto
termination
  by (relation "measure id") auto

declare digits.simps [simp del]

definition str_int :: "int \<Rightarrow> string" where
  "str_int i = (if i < 0 then CHR ''-'' # digits (nat (- i)) else digits (nat i))"

fun join :: "string \<Rightarrow> string list \<Rightarrow> string" where
  "join sep [] = []"
| "join sep [x] = x"
| "join sep (x # y # ys) = x @ sep @ join sep (y # ys)"

text \<open>
  \<^verbatim>\<open>repr\<close> of a str: in single quotes, or in double quotes when the str holds a single quote
  and no double quote; the quote, the backslash and the control characters are escaped.
\<close>

definition hex_digit :: "nat \<Rightarrow> char" where
  "hex_digit n = (if n < 10 then char_of (48 + n) else char_of (87 + n))"

definition repr_char :: "char \<Rightarrow> char \<Rightarrow> string" where
  "repr_char q c =
     (if c = q \<or> c = CHR 0x5C then [CHR 0x5C, c]
      else if c = CHR 0x09 then [CHR 0x5C, CHR ''t'']
      else if c = CHR 0x0A then [CHR 0x5C, CHR ''n'']
      else if c = CHR 0x0D then [CHR 0x5C, CHR ''r'']
      else if (of_char c :: nat) < 32 \<or> c = CHR 0x7F
        then [CHR 0x5C, CHR ''x'', hex_digit (of_char c div 16), hex_digit (of_char c mod 16)]
      else [c])"

definition repr_str :: "string \<Rightarrow> string" where
  "repr_str s =
     (let q = (if CHR 0x27 \<in> set s \<and> CHR 0x22 \<notin> set s then CHR 0x22 else CHR 0x27)
      in q # concat (map (repr_char q) s) @ [q])"

fun py_repr :: "json \<Rightarrow> string" where
  "py_repr JNull = ''None''"
| "py_repr (JBool b) = (if b then ''True'' else ''False'')"
| "py_repr (JInt i) = str_int i"
| "py_repr (JFloat r) = r"
| "py_repr (JStr s) = repr_str s"
| "py_repr (JArr xs) = ''['' @ join '', '' (map py_repr xs) @ '']''"
| "py_repr (JObj kvs) =
     ''{'' @ join '', '' (map (\<lambda>kv. repr_str (fst kv) @ '': '' @ py_repr (snd kv)) kvs) @ ''}''"

text \<open>\<^verbatim>\<open>str(x)\<close>: a str is itself, every other value prints as its \<^verbatim>\<open>repr\<close>. It never raises.\<close>

definition py_str :: "json \<Rightarrow> string" where
  "py_str v = (case v of JStr s \<Rightarrow> s | _ \<Rightarrow> py_repr v)"

text \<open>The upper case letters below 256: A to Z, and those of Latin-1 but the sign of multiplication.\<close>

definition lower_char :: "char \<Rightarrow> char" where
  "lower_char c =
     (if (65 \<le> (of_char c :: nat) \<and> (of_char c :: nat) \<le> 90)
         \<or> (192 \<le> (of_char c :: nat) \<and> (of_char c :: nat) \<le> 222 \<and> (of_char c :: nat) \<noteq> 215)
      then char_of (of_char c + (32::nat)) else c)"

text \<open>\<^verbatim>\<open>x.lower()\<close>: a method of str only.\<close>

fun py_lower :: "json \<Rightarrow> error + json" where
  "py_lower (JStr s) = Inr (JStr (map lower_char s))"
| "py_lower _ = Inl AttributeError"

text \<open>\<^verbatim>\<open>s.split(sep)\<close> for a separator of one character: the result is never empty.\<close>

fun py_split :: "char \<Rightarrow> string \<Rightarrow> string list" where
  "py_split sep [] = [[]]"
| "py_split sep (c # cs) =
     (if c = sep then [] # py_split sep cs
      else (case py_split sep cs of [] \<Rightarrow> [[c]] | p # ps \<Rightarrow> (c # p) # ps))"

text \<open>
  \<^verbatim>\<open>s.strip()\<close> removes the white space at both ends: below 256 that is the space, the
  characters 9 to 13 and 28 to 31, the next line character and the no-break space.
\<close>

definition is_space :: "char \<Rightarrow> bool" where
  "is_space c =
     (c = CHR 0x20 \<or> (9 \<le> (of_char c :: nat) \<and> (of_char c :: nat) \<le> 13)
      \<or> (28 \<le> (of_char c :: nat) \<and> (of_char c :: nat) \<le> 31)
      \<or> c = CHR 0x85 \<or> c = CHR 0xA0)"

definition py_strip :: "string \<Rightarrow> string" where
  "py_strip s = rev (dropWhile is_space (rev (dropWhile is_space s)))"

section \<open>Normalizing the fields of a tweet\<close>

subsection \<open>Geometry\<close>

text \<open>
  \<^verbatim>\<open>
  geo =''
  try:
      geo_coords = tweet['geo']['coordinates']
      geo_coords = str(tweet['geo']['coordinates'][0]) + ' ' + str(tweet['geo']['coordinates'][1])
      geo_str = 'POINT'
      geo = geo_str+'('+geo_coords+')'
  except TypeError:
      try:
          geo_coords = '('
          for i,poly in enumerate(tweet['place']['bounding_box']['coordinates']):
              if i>0:
                  geo_coords+=','
              geo_coords+='('
              for j,point in enumerate(poly):
                  geo_coords+= str(point[0]) + ' ' + str(point[1]) + ','
              geo_coords+= str(poly[0][0]) + ' ' + str(poly[0][1])
              geo_coords+=')'
          geo_coords+=')'
          geo_str = 'MULTIPOLYGON'
          geo  = 'POLYGON' + geo_coords
      except KeyError:
          if tweet['user']['geo_enabled']:
              geo_str = None
              geo_coords = None
              geo = geo_str
  \<close>
  The first \<^verbatim>\<open>try\<close> is left only by a \<^verbatim>\<open>TypeError\<close>, the second only by a \<^verbatim>\<open>KeyError\<close>;
  every other exception leaves \<^verbatim>\<open>insert_tweet\<close>.
\<close>

definition point_text :: "json \<Rightarrow> error + string" where
  "point_text point =
     rbind (py_index point 0) (\<lambda>x.
     rbind (py_index point 1) (\<lambda>y.
     Inr (py_str x @ '' '' @ py_str y)))"

definition geo_point :: "json \<Rightarrow> error + string" where
  "geo_point tweet =
     rbind (py_item tweet ''geo'') (\<lambda>g.
     rbind (py_item g ''coordinates'') (\<lambda>coordinates.
     rbind (point_text coordinates) (\<lambda>geo_coords.
     Inr (''POINT'' @ ''('' @ geo_coords @ '')''))))"

text \<open>One pass of the outer loop: the text of one ring, closed by its first point.\<close>

definition ring_text :: "json \<Rightarrow> error + string" where
  "ring_text poly =
     rbind (py_iter poly) (\<lambda>points.
     rbind (rmap point_text points) (\<lambda>ps.
     rbind (py_index poly 0) (\<lambda>p0.
     rbind (point_text p0) (\<lambda>closing.
     Inr (''('' @ concat (map (\<lambda>p. p @ '','') ps) @ closing @ '')'')))))"

definition geo_polygon :: "json \<Rightarrow> error + string" where
  "geo_polygon tweet =
     rbind (py_item tweet ''place'') (\<lambda>place.
     rbind (py_item place ''bounding_box'') (\<lambda>box.
     rbind (py_item box ''coordinates'') (\<lambda>coordinates.
     rbind (py_iter coordinates) (\<lambda>polys.
     rbind (rmap ring_text polys) (\<lambda>rings.
     Inr (''POLYGON'' @ ''('' @ join '','' rings @ '')''))))))"

text \<open>
  The value of \<^verbatim>\<open>geo\<close> after the block: a str, or \<^verbatim>\<open>None\<close>. It stays the empty str it
  was initialised with when the last branch finds \<^verbatim>\<open>geo_enabled\<close> false.
\<close>

definition geo_of :: "json \<Rightarrow> error + json" where
  "geo_of tweet =
     (case geo_point tweet of
        Inr geo \<Rightarrow> Inr (JStr geo)
      | Inl TypeError \<Rightarrow>
          (case geo_polygon tweet of
             Inr geo \<Rightarrow> Inr (JStr geo)
           | Inl KeyError \<Rightarrow>
               rbind (py_item tweet ''user'') (\<lambda>user.
               rbind (py_item user ''geo_enabled'') (\<lambda>geo_enabled.
               Inr (if py_truth geo_enabled then JNull else JStr [])))
           | Inl e \<Rightarrow> Inl e)
      | Inl e \<Rightarrow> Inl e)"

subsection \<open>Text, country, state and place\<close>

text \<open>
  \<^verbatim>\<open>
  try:
      text = tweet['extended_tweet']['full_text']
  except:
      text = tweet['text']
  \<close>
\<close>

definition text_of :: "json \<Rightarrow> error + json" where
  "text_of tweet =
     (case rbind (py_item tweet ''extended_tweet'') (\<lambda>e. py_item e ''full_text'') of
        Inr t \<Rightarrow> Inr t
      | Inl _ \<Rightarrow> py_item tweet ''text'')"

text \<open>
  \<^verbatim>\<open>
  try:
      country_code = tweet['place']['country_code'].lower()
  except TypeError:
      country_code = None
  \<close>
\<close>

definition country_code_of :: "json \<Rightarrow> error + json" where
  "country_code_of tweet =
     (case rbind (py_item tweet ''place'') (\<lambda>place.
           rbind (py_item place ''country_code'') py_lower) of
        Inl TypeError \<Rightarrow> Inr JNull
      | r \<Rightarrow> r)"

text \<open>
  \<^verbatim>\<open>
  if country_code == 'us':
      state_code = tweet['place']['full_name'].split(',')[-1].strip().lower()
      if len(state_code)>2:
          state_code = None
  else:
      state_code = None
  \<close>
\<close>

definition state_code_of :: "json \<Rightarrow> json \<Rightarrow> error + json" where
  "state_code_of tweet country_code =
     (if country_code = JStr ''us'' then
        rbind (py_item tweet ''place'') (\<lambda>place.
        rbind (py_item place ''full_name'') (\<lambda>full_name.
          (case full_name of
             JStr s \<Rightarrow>
               (let state_code = map lower_char (py_strip (last (py_split CHR '','' s)))
                in Inr (if length state_code > 2 then JNull else JStr state_code))
           | _ \<Rightarrow> Inl AttributeError)))
      else Inr JNull)"

text \<open>
  \<^verbatim>\<open>
  try:
      place_name = tweet['place']['full_name']
  except TypeError:
      place_name = None
  \<close>
\<close>

definition place_name_of :: "json \<Rightarrow> error + json" where
  "place_name_of tweet =
     (case rbind (py_item tweet ''place'') (\<lambda>place. py_item place ''full_name'') of
        Inl TypeError \<Rightarrow> Inr JNull
      | r \<Rightarrow> r)"

subsection \<open>Entity containers\<close>

text \<open>
  \<^verbatim>\<open>
  try:
      urls = tweet['extended_tweet']['entities']['urls']
  except KeyError:
      urls = tweet['entities']['urls']
  \<close>
  and the same for \<^verbatim>\<open>user_mentions\<close>.
\<close>

definition entities_of :: "json \<Rightarrow> string \<Rightarrow> error + json" where
  "entities_of tweet name =
     (case rbind (py_item tweet ''extended_tweet'') (\<lambda>extended.
           rbind (py_item extended ''entities'') (\<lambda>entities. py_item entities name)) of
        Inl KeyError \<Rightarrow> rbind (py_item tweet ''entities'') (\<lambda>entities. py_item entities name)
      | r \<Rightarrow> r)"

text \<open>
  \<^verbatim>\<open>
  try:
      hashtags = tweet['extended_tweet']['entities']['hashtags']
      cashtags = tweet['extended_tweet']['entities']['symbols']
  except KeyError:
      hashtags = tweet['entities']['hashtags']
      cashtags = tweet['entities']['symbols']

  tags = [ '#'+hashtag['text'] for hashtag in hashtags ] + [ '$'+cashtag['text'] for cashtag in cashtags ]
  \<close>
  \<^verbatim>\<open>'#' + x\<close> raises \<^verbatim>\<open>TypeError\<close> unless \<open>x\<close> is a str.
\<close>

definition both_tags :: "json \<Rightarrow> error + json \<times> json" where
  "both_tags entities =
     rbind (py_item entities ''hashtags'') (\<lambda>hashtags.
     rbind (py_item entities ''symbols'') (\<lambda>cashtags.
     Inr (hashtags, cashtags)))"

definition tag_text :: "char \<Rightarrow> json \<Rightarrow> error + json" where
  "tag_text prefix tag =
     rbind (py_item tag ''text'') (\<lambda>t.
       (case t of JStr s \<Rightarrow> Inr (JStr (prefix # s)) | _ \<Rightarrow> Inl TypeError))"

definition tags_of :: "json \<Rightarrow> error + json list" where
  "tags_of tweet =
     rbind
       (case rbind (py_item tweet ''extended_tweet'') (\<lambda>extended.
             rbind (py_item extended ''entities'') both_tags) of
          Inl KeyError \<Rightarrow> rbind (py_item tweet ''entities'') both_tags
        | r \<Rightarrow> r)
       (\<lambda>(hashtags, cashtags).
          rbind (py_iter hashtags) (\<lambda>hs.
          rbind (rmap (tag_text CHR ''#'') hs) (\<lambda>htags.
          rbind (py_iter cashtags) (\<lambda>cs.
          rbind (rmap (tag_text CHR ''$'') cs) (\<lambda>ctags.
          Inr (htags @ ctags))))))"

text \<open>
  \<^verbatim>\<open>
  try:
      media = tweet['extended_tweet']['extended_entities']['media']
  except KeyError:
      try:
          media = tweet['extended_entities']['media']
      except KeyError:
          media = []
  \<close>
\<close>

definition media_of :: "json \<Rightarrow> error + json" where
  "media_of tweet =
     (case rbind (py_item tweet ''extended_tweet'') (\<lambda>extended.
           rbind (py_item extended ''extended_entities'') (\<lambda>entities.
           py_item entities ''media'')) of
        Inl KeyError \<Rightarrow>
          (case rbind (py_item tweet ''extended_entities'') (\<lambda>entities.
                py_item entities ''media'') of
             Inl KeyError \<Rightarrow> Inr (JArr [])
           | r \<Rightarrow> r)
      | r \<Rightarrow> r)"

section \<open>The database\<close>

text \<open>
  The loader talks to the database through \<^verbatim>\<open>connection.execute\<close> with eleven SQL
  statements of four shapes. A row is the dict of parameters the loader passes: the columns
  it names with their values; a column a row does not name is \<^verbatim>\<open>NULL\<close>. A value of a
  column is the Python value handed over, \<^verbatim>\<open>None\<close> being \<^verbatim>\<open>NULL\<close>. Column types are not
  modelled: every column accepts every value but the one below.
\<close>

type_synonym row = "(string \<times> json) list"

definition col :: "row \<Rightarrow> string \<Rightarrow> json" where
  "col r c = (case map_of r c of None \<Rightarrow> JNull | Some v \<Rightarrow> v)"

text \<open>
  Modelled from the spec: the docstring of \<^verbatim>\<open>remove_nulls\<close> and the specification's text
  sanitizer say that the storage cannot represent a str with the null character \<^verbatim>\<open>\x00\<close>
  in it. A statement with such a str among its parameters, alone or in a list, is refused
  with \<open>NullCharacter\<close>, whatever the statement.
\<close>

fun has_null :: "json \<Rightarrow> bool" where
  "has_null (JStr s) = (CHR 0x00 \<in> set s)"
| "has_null (JArr xs) = list_ex has_null xs"
| "has_null _ = False"

definition holds_null :: "row \<Rightarrow> bool" where
  "holds_null r = list_ex (\<lambda>kv. has_null (snd kv)) r"

text \<open>SQL's \<open>=\<close> in a \<^verbatim>\<open>WHERE\<close> clause or a key comparison: \<^verbatim>\<open>NULL\<close> equals nothing.\<close>

definition sql_eq :: "json \<Rightarrow> json \<Rightarrow> bool" where
  "sql_eq a b = (a \<noteq> JNull \<and> b \<noteq> JNull \<and> a = b)"

datatype table = Users | Tweets | Urls | Tweet_urls | Tweet_mentions | Tweet_tags | Tweet_media

record db =
  users :: "row list"
  tweets :: "row list"
  urls :: "row list"
  tweet_urls :: "row list"
  tweet_mentions :: "row list"
  tweet_tags :: "row list"
  tweet_media :: "row list"

fun rows_of :: "table \<Rightarrow> db \<Rightarrow> row list" where
  "rows_of Users d = users d"
| "rows_of Tweets d = tweets d"
| "rows_of Urls d = urls d"
| "rows_of Tweet_urls d = tweet_urls d"
| "rows_of Tweet_mentions d = tweet_mentions d"
| "rows_of Tweet_tags d = tweet_tags d"
| "rows_of Tweet_media d = tweet_media d"

fun with_rows :: "table \<Rightarrow> row list \<Rightarrow> db \<Rightarrow> db" where
  "with_rows Users rs d = d\<lparr>users := rs\<rparr>"
| "with_rows Tweets rs d = d\<lparr>tweets := rs\<rparr>"
| "with_rows Urls rs d = d\<lparr>urls := rs\<rparr>"
| "with_rows Tweet_urls rs d = d\<lparr>tweet_urls := rs\<rparr>"
| "with_rows Tweet_mentions rs d = d\<lparr>tweet_mentions := rs\<rparr>"
| "with_rows Tweet_tags rs d = d\<lparr>tweet_tags := rs\<rparr>"
| "with_rows Tweet_media rs d = d\<lparr>tweet_media := rs\<rparr>"

subsection \<open>The schema\<close>

text \<open>
  Modelled from the spec: the file that creates the tables is not among the sources. The
  specification's data model gives the keys: an Author and a Post are keyed by their
  identity, a Link has a surrogate identity and is deduplicated by its string value, a Tag
  association is keyed by (Post, tag string), a Mention by (Post, Author), a Media
  attachment by (Post, Link), and so is the association of a Post with a Link.
\<close>

fun primary_key :: "table \<Rightarrow> string list" where
  "primary_key Users = [''id_users'']"
| "primary_key Tweets = [''id_tweets'']"
| "primary_key Urls = [''id_urls'']"
| "primary_key Tweet_urls = [''id_tweets'', ''id_urls'']"
| "primary_key Tweet_mentions = [''id_tweets'', ''id_users'']"
| "primary_key Tweet_tags = [''id_tweets'', ''tag'']"
| "primary_key Tweet_media = [''id_tweets'', ''id_urls'']"

definition unique_keys :: "table \<Rightarrow> string list list" where
  "unique_keys t = (if t = Urls then [primary_key t, [''url'']] else [primary_key t])"

text \<open>
  Modelled from the spec: the foreign keys. Every reference from a Post, a Mention, a Media
  attachment or a Tag to an Author, a Link or a Post must resolve to an existing row; an
  Author refers to the Link of its profile. The loader's own comment names the key from
  \<^verbatim>\<open>tweets.in_reply_to_user_id\<close> to \<^verbatim>\<open>users(id_users)\<close>. The references of a Post to the
  post it answers or quotes are not keys: a Post may answer a post never loaded.
\<close>

fun foreign_keys :: "table \<Rightarrow> (string \<times> table \<times> string) list" where
  "foreign_keys Users = [(''id_urls'', Urls, ''id_urls'')]"
| "foreign_keys Tweets =
     [(''id_users'', Users, ''id_users''), (''in_reply_to_user_id'', Users, ''id_users'')]"
| "foreign_keys Urls = []"
| "foreign_keys Tweet_urls =
     [(''id_tweets'', Tweets, ''id_tweets''), (''id_urls'', Urls, ''id_urls'')]"
| "foreign_keys Tweet_mentions =
     [(''id_tweets'', Tweets, ''id_tweets''), (''id_users'', Users, ''id_users'')]"
| "foreign_keys Tweet_tags = [(''id_tweets'', Tweets, ''id_tweets'')]"
| "foreign_keys Tweet_media =
     [(''id_tweets'', Tweets, ''id_tweets''), (''id_urls'', Urls, ''id_urls'')]"

text \<open>
  Modelled from the spec: the surrogate identity of a Link is given by the database when
  the loader inserts a URL without one. The model takes one more than the largest
  identity in the table, which no row of the table has.
\<close>

fun id_of :: "json \<Rightarrow> int" where
  "id_of (JInt i) = i"
| "id_of _ = 0"

definition next_id :: "row list \<Rightarrow> int" where
  "next_id rs = 1 + foldr max (map (\<lambda>r. id_of (col r ''id_urls'')) rs) 0"

definition with_defaults :: "table \<Rightarrow> row \<Rightarrow> db \<Rightarrow> row" where
  "with_defaults t r d =
     (if t = Urls \<and> map_of r ''id_urls'' = None
      then (''id_urls'', JInt (next_id (urls d))) # r else r)"

subsection \<open>The statements\<close>

text \<open>
  \<^item> \<open>Select rc t wc v\<close> is \<^verbatim>\<open>SELECT rc FROM t WHERE wc = :v\<close>;
  \<^item> \<open>Insert t r\<close> is \<^verbatim>\<open>INSERT INTO t (columns of r) VALUES (values of r) ON CONFLICT DO NOTHING\<close>;
  \<^item> \<open>Insert_returning t r rc\<close> is the same followed by \<^verbatim>\<open>RETURNING rc\<close>;
  \<^item> \<open>Update t r wc\<close> is \<^verbatim>\<open>UPDATE t SET (columns of r) = (values of r) WHERE wc = :wc\<close>,
    where \<open>wc\<close> is one of the columns of \<open>r\<close>.
\<close>

datatype stmt =
    Select string table string json
  | Insert table row
  | Insert_returning table row string
  | Update table row string

text \<open>A row with a key equal to that of the new row is in the table.\<close>

definition conflicts :: "table \<Rightarrow> row \<Rightarrow> db \<Rightarrow> bool" where
  "conflicts t r d =
     list_ex (\<lambda>r0. list_ex (\<lambda>key. list_all (\<lambda>c. sql_eq (col r0 c) (col r c)) key) (unique_keys t))
       (rows_of t d)"

text \<open>A row with the value \<open>v\<close> in column \<open>c\<close> is in table \<open>t\<close>.\<close>

definition has_row :: "table \<Rightarrow> string \<Rightarrow> json \<Rightarrow> db \<Rightarrow> bool" where
  "has_row t c v d = list_ex (\<lambda>r0. sql_eq (col r0 c) v) (rows_of t d)"

text \<open>Every foreign key of the row is \<^verbatim>\<open>NULL\<close> or names a row of the table it refers to.\<close>

definition references_ok :: "table \<Rightarrow> row \<Rightarrow> db \<Rightarrow> bool" where
  "references_ok t r d =
     list_all (\<lambda>(c, t', c'). col r c = JNull \<or> has_row t' c' (col r c) d) (foreign_keys t)"

text \<open>
  An insert: a value with the null character is refused; the columns of the primary key
  must not be \<^verbatim>\<open>NULL\<close>; a row that conflicts with a row of the table is dropped silently,
  before its references are looked at; a row that refers to a missing row is refused. The
  result is the row written, if one was.
\<close>

definition insert_row :: "table \<Rightarrow> row \<Rightarrow> db \<Rightarrow> error + (row option \<times> db)" where
  "insert_row t r d =
     (let r' = with_defaults t r d in
      if holds_null r then Inl NullCharacter
      else if list_ex (\<lambda>c. col r' c = JNull) (primary_key t) then Inl NotNullViolation
      else if conflicts t r' d then Inr (None, d)
      else if \<not> references_ok t r' d then Inl ForeignKeyViolation
      else Inr (Some r', with_rows t (rows_of t d @ [r']) d))"

text \<open>The columns of \<open>new\<close> replace those of \<open>old\<close>; the other columns of \<open>old\<close> stay.\<close>

definition overwrite :: "row \<Rightarrow> row \<Rightarrow> row" where
  "overwrite new old = new @ filter (\<lambda>kv. map_of new (fst kv) = None) old"

definition update_rows :: "table \<Rightarrow> row \<Rightarrow> string \<Rightarrow> db \<Rightarrow> error + db" where
  "update_rows t r wc d =
     (if holds_null r then Inl NullCharacter
      else if \<not> has_row t wc (col r wc) d then Inr d
      else if \<not> references_ok t r d then Inl ForeignKeyViolation
      else Inr (with_rows t
             (map (\<lambda>r0. if sql_eq (col r0 wc) (col r wc) then overwrite r r0 else r0) (rows_of t d)) d))"

text \<open>The result of a statement is the list of the rows it returns, each a list of values.\<close>

fun execute_sql :: "stmt \<Rightarrow> db \<Rightarrow> error + (json list list \<times> db)" where
  "execute_sql (Select rc t wc v) d =
     (if has_null v then Inl NullCharacter
      else Inr (map (\<lambda>r. [col r rc]) (filter (\<lambda>r. sql_eq (col r wc) v) (rows_of t d)), d))"
| "execute_sql (Insert t r) d =
     (case insert_row t r d of Inl e \<Rightarrow> Inl e | Inr (_, d') \<Rightarrow> Inr ([], d'))"
| "execute_sql (Insert_returning t r rc) d =
     (case insert_row t r d of
        Inl e \<Rightarrow> Inl e
      | Inr (None, d') \<Rightarrow> Inr ([], d')
      | Inr (Some r', d') \<Rightarrow> Inr ([[col r' rc]], d'))"
| "execute_sql (Update t r wc) d =
     (case update_rows t r wc d of Inl e \<Rightarrow> Inl e | Inr d' \<Rightarrow> Inr ([], d'))"

subsection \<open>The connection and its transaction\<close>

text \<open>
  A connection holds what is committed and, inside a transaction, the state the
  transaction has reached. \<^verbatim>\<open>with connection.begin() as trans:\<close> begins a transaction,
  commits it when the block is left normally (also by \<^verbatim>\<open>return\<close>) and rolls it back when
  an exception leaves the block. A statement outside a transaction is committed at once.
  A computation on a connection returns its value or exception with the connection as it
  is then.
\<close>

record connection =
  committed :: db
  pending :: "db option"

definition conn_begin :: "connection \<Rightarrow> connection" where
  "conn_begin c = c\<lparr>pending := Some (committed c)\<rparr>"

definition commit :: "connection \<Rightarrow> connection" where
  "commit c = (case pending c of None \<Rightarrow> c | Some d \<Rightarrow> \<lparr>committed = d, pending = None\<rparr>)"

definition rollback :: "connection \<Rightarrow> connection" where
  "rollback c = c\<lparr>pending := None\<rparr>"

definition current :: "connection \<Rightarrow> db" where
  "current c = (case pending c of None \<Rightarrow> committed c | Some d \<Rightarrow> d)"

definition with_current :: "db \<Rightarrow> connection \<Rightarrow> connection" where
  "with_current d c =
     (case pending c of None \<Rightarrow> c\<lparr>committed := d\<rparr> | Some _ \<Rightarrow> c\<lparr>pending := Some d\<rparr>)"

text \<open>
  \<^verbatim>\<open>connection.execute(sql, parameters)\<close>: the statement runs on the current state; when
  it raises, the state is as before.
\<close>

definition execute :: "stmt \<Rightarrow> connection \<Rightarrow> (error + json list list) \<times> connection" where
  "execute s c =
     (case execute_sql s (current c) of
        Inl e \<Rightarrow> (Inl e, c)
      | Inr (rs, d') \<Rightarrow> (Inr rs, with_current d' c))"

text \<open>\<^verbatim>\<open>res.first()\<close>: the first row of a result, or \<^verbatim>\<open>None\<close>.\<close>

definition first :: "json list list \<Rightarrow> json list option" where
  "first rs = (case rs of [] \<Rightarrow> None | r # _ \<Rightarrow> Some r)"

text \<open>Sequencing on a connection: an exception ends the sequence.\<close>

definition sbind ::
  "('c \<Rightarrow> (error + 'a) \<times> 'c) \<Rightarrow> ('a \<Rightarrow> 'c \<Rightarrow> (error + 'b) \<times> 'c) \<Rightarrow> 'c \<Rightarrow> (error + 'b) \<times> 'c" where
  "sbind m f c = (case m c of (Inl e, c') \<Rightarrow> (Inl e, c') | (Inr a, c') \<Rightarrow> f a c')"

text \<open>A computation that does not touch the connection.\<close>

definition lift :: "error + 'a \<Rightarrow> 'c \<Rightarrow> (error + 'a) \<times> 'c" where
  "lift r c = (r, c)"

text \<open>\<^verbatim>\<open>for x in xs: body(x)\<close>\<close>

fun foreach :: "('a \<Rightarrow> 'c \<Rightarrow> (error + unit) \<times> 'c) \<Rightarrow> 'a list \<Rightarrow> 'c \<Rightarrow> (error + unit) \<times> 'c" where
  "foreach body [] c = (Inr (), c)"
| "foreach body (x # xs) c =
     (case body x c of (Inl e, c') \<Rightarrow> (Inl e, c') | (Inr _, c') \<Rightarrow> foreach body xs c')"

section \<open>The loader\<close>

subsection \<open>\<^verbatim>\<open>get_id_urls\<close>\<close>

text \<open>
  \<^verbatim>\<open>
  def get_id_urls(url, connection):
      sql = sqlalchemy.sql.text('''
      insert into urls (url) values (:url)
      on conflict do nothing
      returning id_urls ;
      ''')
      res = connection.execute(sql,{'url':url}).first()
      if res is None:
          sql = sqlalchemy.sql.text('''
          select id_urls from urls where url=:url
          ''')
          res = connection.execute(sql,{'url':url}).first()
      id_urls = res[0]
      return id_urls
  \<close>
  The function uses nothing of the connection but its method \<^verbatim>\<open>execute\<close>, which the model
  takes as the parameter \<open>exec\<close>, so that the function can be read on any connection.
  \<^verbatim>\<open>res[0]\<close> raises \<^verbatim>\<open>TypeError\<close> when \<open>res\<close> is \<^verbatim>\<open>None\<close>.
\<close>

definition row_item :: "json list option \<Rightarrow> nat \<Rightarrow> error + json" where
  "row_item res i =
     (case res of
        None \<Rightarrow> Inl TypeError
      | Some r \<Rightarrow> (if i < length r then Inr (r ! i) else Inl IndexError))"

definition get_id_urls ::
  "(stmt \<Rightarrow> 'c \<Rightarrow> (error + json list list) \<times> 'c) \<Rightarrow> json \<Rightarrow> 'c \<Rightarrow> (error + json) \<times> 'c" where
  "get_id_urls exec url =
     sbind (exec (Insert_returning Urls [(''url'', url)] ''id_urls'')) (\<lambda>rs.
     sbind (if first rs = None
            then sbind (exec (Select ''id_urls'' Urls ''url'' url)) (\<lambda>rs'. lift (Inr (first rs')))
            else lift (Inr (first rs))) (\<lambda>res.
     lift (row_item res 0)))"

subsection \<open>\<^verbatim>\<open>insert_tweet\<close>: the users table\<close>

text \<open>
  \<^verbatim>\<open>
  if tweet['user']['url'] is None:
      user_id_urls = None
  else:
      user_id_urls = get_id_urls(tweet['user']['url'], connection)
  user = tweet.get('user',{})
  res = connection.execute(sql_check_user_id,{'id_users':user['id'],})
  if res.first() is not None:
      sql = sql_update
  else:
      sql = sql_insert
  data = { 'id_users':user.get('id', None), ... }
  res= connection.execute(sql, data)
  \<close>
  \<^verbatim>\<open>sql_check_user_id\<close> selects \<^verbatim>\<open>id_users\<close> from \<^verbatim>\<open>users\<close> by \<^verbatim>\<open>id_users\<close>; \<^verbatim>\<open>sql_insert\<close>
  inserts all fifteen columns with \<^verbatim>\<open>on conflict do nothing\<close>; \<^verbatim>\<open>sql_update\<close> sets all
  fifteen columns of the rows whose \<^verbatim>\<open>id_users\<close> is the one given.
\<close>

definition users_data :: "json \<Rightarrow> json \<Rightarrow> json \<Rightarrow> error + row" where
  "users_data tweet user user_id_urls = rdict
     [(''id_users'', py_get user ''id'' JNull),
      (''created_at'', py_get user ''created_at'' JNull),
      (''updated_at'', py_get user ''updated_at'' JNull),
      (''id_urls'', Inr user_id_urls),
      (''friends_count'', py_get user ''friends_count'' (JInt 0)),
      (''listed_count'', py_get user ''listed_count'' (JInt 0)),
      (''favourites_count'', py_get user ''favourites_count'' (JInt 0)),
      (''statuses_count'', py_get user ''statuses_count'' (JInt 0)),
      (''protected'', py_get user ''protected'' (JBool False)),
      (''verified'', py_get user ''verified'' (JBool False)),
      (''screen_name'', rbind (py_get user ''screen_name'' JNull) remove_nulls),
      (''name'', rbind (py_get user ''name'' JNull) remove_nulls),
      (''location'', rbind (py_get user ''location'' JNull) remove_nulls),
      (''description'', rbind (py_get user ''description'' JNull) remove_nulls),
      (''withheld_in_countries'',
         rbind (py_get tweet ''withheld_in_countries'' JNull) remove_nulls)]"

definition insert_users :: "json \<Rightarrow> connection \<Rightarrow> (error + json) \<times> connection" where
  "insert_users tweet =
     sbind (lift (rbind (py_item tweet ''user'') (\<lambda>u. py_item u ''url''))) (\<lambda>url.
     sbind (if url = JNull then lift (Inr JNull) else get_id_urls execute url) (\<lambda>user_id_urls.
     sbind (lift (py_get tweet ''user'' (JObj []))) (\<lambda>user.
     sbind (lift (py_item user ''id'')) (\<lambda>id_users.
     sbind (execute (Select ''id_users'' Users ''id_users'' id_users)) (\<lambda>res.
     sbind (lift (users_data tweet user user_id_urls)) (\<lambda>data.
     sbind (execute (if first res \<noteq> None then Update Users data ''id_users''
                     else Insert Users data)) (\<lambda>_.
     lift (Inr user))))))))"

subsection \<open>\<^verbatim>\<open>insert_tweet\<close>: the tweets table\<close>

text \<open>
  \<^verbatim>\<open>
  if tweet.get('in_reply_to_user_id',None) is not None:
      res_id_in_users = connection.execute(sql_check_user_id,
              {'id_users':tweet.get('in_reply_to_user_id'),})
      if res_id_in_users.first() is  None:
          sql_id_insert=sqlalchemy.sql.text('''
          insert into users (id_users) values (:id_users)
          on conflict do nothing ;
          ''')
          res_insert = connection.execute(sql_id_insert, {'id_users':tweet.get('in_reply_to_user_id'),})
  \<close>
\<close>

definition insert_reply_user :: "json \<Rightarrow> connection \<Rightarrow> (error + unit) \<times> connection" where
  "insert_reply_user tweet =
     sbind (lift (py_get tweet ''in_reply_to_user_id'' JNull)) (\<lambda>reply.
     if reply \<noteq> JNull then
       sbind (execute (Select ''id_users'' Users ''id_users'' reply)) (\<lambda>res_id_in_users.
       if first res_id_in_users = None then
         sbind (execute (Insert Users [(''id_users'', reply)])) (\<lambda>_. lift (Inr ()))
       else lift (Inr ()))
     else lift (Inr ()))"

text \<open>The parameters of the insert into \<^verbatim>\<open>tweets\<close>, in the order of the dict display.\<close>

definition tweets_data ::
  "json \<Rightarrow> json \<Rightarrow> json \<Rightarrow> json \<Rightarrow> json \<Rightarrow> json \<Rightarrow> json \<Rightarrow> error + row" where
  "tweets_data tweet user tweet_text country_code state_code place_name geo = rdict
     [(''id_tweets'', py_get tweet ''id'' JNull),
      (''id_users'', py_get user ''id'' JNull),
      (''created_at'', py_get tweet ''created_at'' JNull),
      (''in_reply_to_status_id'', py_get tweet ''in_reply_to_status_id'' JNull),
      (''in_reply_to_user_id'', py_get tweet ''in_reply_to_user_id'' JNull),
      (''quoted_status_id'', py_get tweet ''quoted_status_id'' JNull),
      (''retweet_count'', py_get tweet ''retweet_count'' (JInt 0)),
      (''favorite_count'', py_get tweet ''favorite_count'' (JInt 0)),
      (''quote_count'', py_get tweet ''quote_count'' (JInt 0)),
      (''withheld_copyright'', py_get tweet ''withheld_copyright'' (JBool False)),
      (''withheld_in_countries'', py_get tweet ''withheld_in_countries'' JNull),
      (''source'', rbind (py_get tweet ''source'' JNull) remove_nulls),
      (''text'', remove_nulls tweet_text),
      (''country_code'', Inr country_code),
      (''state_code'', Inr state_code),
      (''lang'', rbind (py_get tweet ''lang'' (JStr [])) remove_nulls),
      (''place_name'', Inr place_name),
      (''geo'', Inr geo)]"

text \<open>
  Lines 188 to 300 of the loader: the fields are normalized, the user the tweet answers is
  inserted if the table does not have it, and the tweet is inserted.
\<close>

definition insert_tweets :: "json \<Rightarrow> json \<Rightarrow> connection \<Rightarrow> (error + unit) \<times> connection" where
  "insert_tweets tweet user =
     sbind (lift (geo_of tweet)) (\<lambda>geo.
     sbind (lift (text_of tweet)) (\<lambda>tweet_text.
     sbind (lift (country_code_of tweet)) (\<lambda>country_code.
     sbind (lift (state_code_of tweet country_code)) (\<lambda>state_code.
     sbind (lift (place_name_of tweet)) (\<lambda>place_name.
     sbind (insert_reply_user tweet) (\<lambda>_.
     sbind (lift (tweets_data tweet user tweet_text country_code state_code place_name geo)) (\<lambda>data.
     sbind (execute (Insert Tweets data)) (\<lambda>_.
     lift (Inr ())))))))))"

subsection \<open>\<^verbatim>\<open>insert_tweet\<close>: the association tables\<close>

text \<open>
  \<^verbatim>\<open>
  id_tweet = tweet.get('id', None)
  for url in urls:
      id_urls = get_id_urls(url['expanded_url'], connection)
      res_insert_urls = connection.execute(sql_in_tweet_urls,
              {'id_tweets':id_tweet, 'id_urls':id_urls})
  \<close>
\<close>

definition insert_tweet_url :: "json \<Rightarrow> json \<Rightarrow> connection \<Rightarrow> (error + unit) \<times> connection" where
  "insert_tweet_url id_tweet url =
     sbind (lift (py_item url ''expanded_url'')) (\<lambda>expanded_url.
     sbind (get_id_urls execute expanded_url) (\<lambda>id_urls.
     sbind (execute (Insert Tweet_urls [(''id_tweets'', id_tweet), (''id_urls'', id_urls)])) (\<lambda>_.
     lift (Inr ()))))"

definition insert_tweet_urls :: "json \<Rightarrow> connection \<Rightarrow> (error + unit) \<times> connection" where
  "insert_tweet_urls tweet =
     sbind (lift (entities_of tweet ''urls'')) (\<lambda>entity_urls.
     sbind (lift (py_get tweet ''id'' JNull)) (\<lambda>id_tweet.
     sbind (lift (py_iter entity_urls)) (\<lambda>us.
     foreach (insert_tweet_url id_tweet) us)))"

text \<open>
  \<^verbatim>\<open>
  for mention in mentions:
      res_insert = connection.execute(sql_id_users_insert,
              {'id_users':mention.get('id',None),
               'screen_name':remove_nulls(mention.get('screen_name',None)),
               'name':remove_nulls(mention.get('name',None)),
              })
      res_mention_insert = connection.execute(sql_into_tweet_mentions,
              {'id_tweets':tweet.get('id',None), 'id_users':mention.get('id',None)})
  \<close>
  \<^verbatim>\<open>sql_id_users_insert\<close> inserts the three columns into \<^verbatim>\<open>users\<close> with
  \<^verbatim>\<open>on conflict do nothing\<close>.
\<close>

definition insert_tweet_mention ::
  "json \<Rightarrow> json \<Rightarrow> connection \<Rightarrow> (error + unit) \<times> connection" where
  "insert_tweet_mention tweet mention =
     sbind (lift (rdict
       [(''id_users'', py_get mention ''id'' JNull),
        (''screen_name'', rbind (py_get mention ''screen_name'' JNull) remove_nulls),
        (''name'', rbind (py_get mention ''name'' JNull) remove_nulls)])) (\<lambda>stub.
     sbind (execute (Insert Users stub)) (\<lambda>_.
     sbind (lift (rdict
       [(''id_tweets'', py_get tweet ''id'' JNull),
        (''id_users'', py_get mention ''id'' JNull)])) (\<lambda>data.
     sbind (execute (Insert Tweet_mentions data)) (\<lambda>_.
     lift (Inr ())))))"

definition insert_tweet_mentions :: "json \<Rightarrow> connection \<Rightarrow> (error + unit) \<times> connection" where
  "insert_tweet_mentions tweet =
     sbind (lift (entities_of tweet ''user_mentions'')) (\<lambda>mentions.
     sbind (lift (py_iter mentions)) (\<lambda>ms.
     foreach (insert_tweet_mention tweet) ms))"

text \<open>
  \<^verbatim>\<open>
  for tag in tags:
      res_tags_insert = connection.execute(sql_into_tags,
              {'id_tweets':tweet.get('id',None), 'tag': remove_nulls(tag)})
  \<close>
\<close>

definition insert_tweet_tag :: "json \<Rightarrow> json \<Rightarrow> connection \<Rightarrow> (error + unit) \<times> connection" where
  "insert_tweet_tag tweet tag =
     sbind (lift (rdict
       [(''id_tweets'', py_get tweet ''id'' JNull),
        (''tag'', remove_nulls tag)])) (\<lambda>data.
     sbind (execute (Insert Tweet_tags data)) (\<lambda>_.
     lift (Inr ())))"

definition insert_tweet_tags :: "json \<Rightarrow> connection \<Rightarrow> (error + unit) \<times> connection" where
  "insert_tweet_tags tweet =
     sbind (lift (tags_of tweet)) (\<lambda>tags.
     foreach (insert_tweet_tag tweet) tags)"

text \<open>
  \<^verbatim>\<open>
  for medium in media:
      id_urls = get_id_urls(medium['media_url'], connection)
      res_media_insert = connection.execute(sql_into_media,
             {'id_tweets':tweet.get('id',None), 'id_urls':id_urls,
                 'type':medium.get('type',None)})
  \<close>
\<close>

definition insert_tweet_medium ::
  "json \<Rightarrow> json \<Rightarrow> connection \<Rightarrow> (error + unit) \<times> connection" where
  "insert_tweet_medium tweet medium =
     sbind (lift (py_item medium ''media_url'')) (\<lambda>media_url.
     sbind (get_id_urls execute media_url) (\<lambda>id_urls.
     sbind (lift (rdict
       [(''id_tweets'', py_get tweet ''id'' JNull),
        (''id_urls'', Inr id_urls),
        (''type'', py_get medium ''type'' JNull)])) (\<lambda>data.
     sbind (execute (Insert Tweet_media data)) (\<lambda>_.
     lift (Inr ())))))"

definition insert_tweet_media :: "json \<Rightarrow> connection \<Rightarrow> (error + unit) \<times> connection" where
  "insert_tweet_media tweet =
     sbind (lift (media_of tweet)) (\<lambda>media.
     sbind (lift (py_iter media)) (\<lambda>ms.
     foreach (insert_tweet_medium tweet) ms))"

subsection \<open>\<^verbatim>\<open>insert_tweet\<close>\<close>

text \<open>
  \<^verbatim>\<open>insert_tweet\<close> returns \<^verbatim>\<open>None\<close> on both of its ways out. The model names them: the
  \<^verbatim>\<open>return\<close> of line 104, taken when the tweet is already in the table, is
  \<open>SkippedAlreadyPresent\<close>; reaching the end of the block is \<open>Inserted\<close>. An exception that
  leaves the function is the specification's outcome \<^verbatim>\<open>Failed\<close>.
\<close>

datatype outcome = Inserted | SkippedAlreadyPresent

text \<open>
  The block under \<^verbatim>\<open>with connection.begin() as trans:\<close>
  \<^verbatim>\<open>
  sql=sqlalchemy.sql.text('''
   SELECT id_tweets FROM tweets WHERE id_tweets = :id_tweets
  ''')
  res = connection.execute(sql,{'id_tweets':tweet['id'],})
  if res.first() is not None:
      return
  \<close>
  followed by the sections above.
\<close>

definition insert_tweet_block :: "json \<Rightarrow> connection \<Rightarrow> (error + outcome) \<times> connection" where
  "insert_tweet_block tweet =
     sbind (lift (py_item tweet ''id'')) (\<lambda>id_tweets.
     sbind (execute (Select ''id_tweets'' Tweets ''id_tweets'' id_tweets)) (\<lambda>res.
     if first res \<noteq> None then lift (Inr SkippedAlreadyPresent)
     else
       sbind (insert_users tweet) (\<lambda>user.
       sbind (insert_tweets tweet user) (\<lambda>_.
       sbind (insert_tweet_urls tweet) (\<lambda>_.
       sbind (insert_tweet_mentions tweet) (\<lambda>_.
       sbind (insert_tweet_tags tweet) (\<lambda>_.
       sbind (insert_tweet_media tweet) (\<lambda>_.
       lift (Inr Inserted)))))))))"

definition insert_tweet :: "connection \<Rightarrow> json \<Rightarrow> (error + outcome) \<times> connection" where
  "insert_tweet connection tweet =
     (case insert_tweet_block tweet (conn_begin connection) of
        (Inl e, c) \<Rightarrow> (Inl e, rollback c)
      | (Inr out, c) \<Rightarrow> (Inr out, commit c))"

section \<open>Notions used to state and prove the properties\<close>

text \<open>The exceptions Python itself raises; the two others come from the database only.\<close>

definition py_error :: "error \<Rightarrow> bool" where
  "py_error e = (e = KeyError \<or> e = TypeError \<or> e = IndexError \<or> e = AttributeError)"

definition pure_ok :: "error + 'a \<Rightarrow> bool" where
  "pure_ok r = (case r of Inl e \<Rightarrow> py_error e | Inr _ \<Rightarrow> True)"

text \<open>A table after some inserts: the rows it had, in their order, then the new ones.\<close>

definition extends :: "row list \<Rightarrow> row list \<Rightarrow> bool" where
  "extends rs rs' = (\<exists>ys. rs' = rs @ ys)"

text \<open>
  What the statements of one load can do to the rows, \<open>uid\<close> being the identity of the
  author of the tweet: every table but \<^verbatim>\<open>users\<close> only gains rows; the rows of \<^verbatim>\<open>users\<close>
  of other identities stay; an identity present in \<^verbatim>\<open>users\<close> stays present; a row of
  \<^verbatim>\<open>users\<close> that was not there is a row of the author or of an identity that was not
  there. With \<^verbatim>\<open>None\<close> for \<open>uid\<close> this is what the statements other than the update of the
  author's row can do: \<^verbatim>\<open>NULL\<close> equals nothing, so every row of \<^verbatim>\<open>users\<close> stays, and a new
  row is of a new identity.
\<close>

definition grows :: "json \<Rightarrow> db \<Rightarrow> db \<Rightarrow> bool" where
  "grows uid d d' =
     ((\<forall>t. t \<noteq> Users \<longrightarrow> extends (rows_of t d) (rows_of t d')) \<and>
      (\<forall>r \<in> set (users d). \<not> sql_eq (col r ''id_users'') uid \<longrightarrow> r \<in> set (users d')) \<and>
      (\<forall>v. has_row Users ''id_users'' v d \<longrightarrow> has_row Users ''id_users'' v d') \<and>
      (\<forall>r \<in> set (users d'). r \<in> set (users d) \<or> sql_eq (col r ''id_users'') uid \<or>
         \<not> has_row Users ''id_users'' (col r ''id_users'') d))"

text \<open>A database is consistent when every foreign key of every row of every table is satisfied.\<close>

definition all_tables :: "table list" where
  "all_tables = [Users, Tweets, Urls, Tweet_urls, Tweet_mentions, Tweet_tags, Tweet_media]"

definition consistent :: "db \<Rightarrow> bool" where
  "consistent d = list_all (\<lambda>t. list_all (\<lambda>r. references_ok t r d) (rows_of t d)) all_tables"

text \<open>What the statements of one load can do to the database: the above, keeping it consistent.\<close>

definition evolves :: "json \<Rightarrow> db \<Rightarrow> db \<Rightarrow> bool" where
  "evolves uid d d' = (grows uid d d' \<and> (consistent d \<longrightarrow> consistent d'))"

text \<open>
  The same for a connection inside a transaction: the transaction stays open, and what is
  committed does not move.
\<close>

definition steps :: "json \<Rightarrow> connection \<Rightarrow> connection \<Rightarrow> bool" where
  "steps uid c c' =
     (pending c' \<noteq> None \<and> committed c' = committed c \<and> evolves uid (current c) (current c'))"

text \<open>
  \<open>wp m Q E c\<close>: run from \<open>c\<close>, the computation \<open>m\<close> returns a value and a state that satisfy
  \<open>Q\<close>, or raises an exception in a state that satisfy \<open>E\<close>.
\<close>

definition wp ::
  "('c \<Rightarrow> (error + 'a) \<times> 'c) \<Rightarrow> ('a \<Rightarrow> 'c \<Rightarrow> bool) \<Rightarrow> (error \<Rightarrow> 'c \<Rightarrow> bool) \<Rightarrow> 'c \<Rightarrow> bool" where
  "wp m Q E c = (case m c of (Inl e, c') \<Rightarrow> E e c' | (Inr a, c') \<Rightarrow> Q a c')"

text \<open>The row the database writes for a new URL.\<close>

definition url_row :: "json \<Rightarrow> db \<Rightarrow> row" where
  "url_row url d = [(''id_urls'', JInt (next_id (urls d))), (''url'', url)]"




text \<open>\<^verbatim>\<open>tweet['user']['id']\<close>, the identity of the author of a tweet (\<^verbatim>\<open>None\<close> when it has none).\<close>

definition poster_id :: "json \<Rightarrow> json" where
  "poster_id tweet =
     (case rbind (py_item tweet ''user'') (\<lambda>u. py_item u ''id'') of Inl _ \<Rightarrow> JNull | Inr v \<Rightarrow> v)"

text \<open>\<open>n\<close> calls of \<^verbatim>\<open>get_id_urls\<close> in a row with the same URL: their results, and the connection after them.\<close>

fun get_id_urls_times :: "nat \<Rightarrow> json \<Rightarrow> connection \<Rightarrow> (error + json) list \<times> connection" where
  "get_id_urls_times 0 url c = ([], c)"
| "get_id_urls_times (Suc n) url c =
     (case get_id_urls execute url c of
        (r, c') \<Rightarrow> (case get_id_urls_times n url c' of (rs, c'') \<Rightarrow> (r # rs, c'')))"

text \<open>
  The text of a ring given by its vertices, closed as well-known text asks: the vertices
  in order, then the first vertex again, separated by commas.
\<close>

definition vertex_text :: "json \<times> json \<Rightarrow> string" where
  "vertex_text v = py_str (fst v) @ '' '' @ py_str (snd v)"

definition closed_ring :: "(json \<times> json) list \<Rightarrow> string" where
  "closed_ring vs = ''('' @ join '','' (map vertex_text (vs @ [hd vs])) @ '')''"

text \<open>A ring and a bounding box as the tweet carries them: lists of lists of pairs.\<close>

definition ring_json :: "(json \<times> json) list \<Rightarrow> json" where
  "ring_json vs = JArr (map (\<lambda>v. JArr [fst v, snd v]) vs)"

subsection \<open>Example data\<close>

definition no_rows :: db where
  "no_rows = \<lparr>users = [], tweets = [], urls = [], tweet_urls = [], tweet_mentions = [],
     tweet_tags = [], tweet_media = []\<rparr>"

definition idle :: connection where
  "idle = \<lparr>committed = no_rows, pending = None\<rparr>"

definition example_user :: json where
  "example_user = JObj
     [(''id'', JInt 1), (''url'', JStr ''http://a.example''), (''name'', JStr ''Al''),
      (''screen_name'', JStr ''al''), (''location'', JStr ''Austin''),
      (''description'', JStr ''hello''), (''geo_enabled'', JBool True)]"

definition example_place :: json where
  "example_place = JObj
     [(''bounding_box'', JObj [(''coordinates'',
         JArr [ring_json [(JFloat ''1.5'', JInt 2), (JInt 3, JInt (- 4)), (JInt 5, JInt 6)]])]),
      (''country_code'', JStr ''US''), (''full_name'', JStr ''Austin, TX'')]"

definition example_entities :: json where
  "example_entities = JObj
     [(''urls'', JArr [JObj [(''expanded_url'', JStr ''http://b.example'')]]),
      (''user_mentions'',
         JArr [JObj [(''id'', JInt 3), (''screen_name'', JStr ''cy''), (''name'', JStr ''Cy'')]]),
      (''hashtags'', JArr [JObj [(''text'', JStr ''x'')]]),
      (''symbols'', JArr [])]"

text \<open>A tweet of author 1 that answers author 2 and mentions author 3.\<close>

definition example_tweet :: json where
  "example_tweet = JObj
     [(''id'', JInt 100), (''user'', example_user), (''geo'', JNull), (''place'', example_place),
      (''text'', JStr ''hi''), (''in_reply_to_user_id'', JInt 2),
      (''entities'', example_entities)]"

text \<open>The same tweet with a second mention that has no identity.\<close>

definition failing_tweet :: json where
  "failing_tweet = JObj
     [(''id'', JInt 100), (''user'', example_user), (''geo'', JNull), (''place'', example_place),
      (''text'', JStr ''hi''), (''in_reply_to_user_id'', JInt 2),
      (''entities'', JObj
         [(''urls'', JArr [JObj [(''expanded_url'', JStr ''http://b.example'')]]),
          (''user_mentions'',
             JArr [JObj [(''id'', JInt 3), (''screen_name'', JStr ''cy''), (''name'', JStr ''Cy'')],
                   JObj [(''id'', JNull), (''screen_name'', JStr ''dee'')]]),
          (''hashtags'', JArr []), (''symbols'', JArr [])])]"



text \<open>A tweet without a point and without a place, as the platform sends most tweets.\<close>

definition placeless_tweet :: json where
  "placeless_tweet = JObj
     [(''id'', JInt 103), (''user'', example_user), (''geo'', JNull), (''place'', JNull),
      (''text'', JStr ''hi''), (''entities'', example_entities)]"

text \<open>A tweet with a point and a bounding box; one whose place has no bounding box.\<close>

definition point_tweet :: json where
  "point_tweet = JObj
     [(''id'', JInt 104), (''user'', example_user),
      (''geo'', JObj [(''coordinates'', JArr [JFloat ''30.25'', JFloat ''-97.75''])]),
      (''place'', example_place), (''text'', JStr ''hi''), (''entities'', example_entities)]"

definition boxless_tweet :: json where
  "boxless_tweet = JObj
     [(''id'', JInt 105), (''user'', example_user), (''geo'', JNull),
      (''place'', JObj [(''country_code'', JStr ''GB''), (''full_name'', JStr ''London, England'')]),
      (''text'', JStr ''hi''), (''entities'', example_entities)]"




text \<open>A connection whose \<^verbatim>\<open>execute\<close> returns no row, whatever the statement, and counts its calls.\<close>

definition silent :: "stmt \<Rightarrow> nat \<Rightarrow> (error + json list list) \<times> nat" where
  "silent s n = (Inr [], Suc n)"

section \<open>Lemmas\<close>

subsection \<open>Normalization raises Python exceptions only\<close>

lemma pure_ok_Inr [simp]: "pure_ok (Inr a)"
  by (simp add: pure_ok_def)

lemma pure_ok_Inl [simp]: "pure_ok (Inl e) = py_error e"
  by (simp add: pure_ok_def)

lemma pure_ok_rbind: "pure_ok r \<Longrightarrow> (\<And>a. pure_ok (f a)) \<Longrightarrow> pure_ok (rbind r f)"
  by (cases r) (simp_all add: rbind_def)

lemma pure_ok_py_item [simp]: "pure_ok (py_item x k)"
  by (cases x) (simp_all add: py_error_def split: option.splits)

lemma pure_ok_py_index [simp]: "pure_ok (py_index x i)"
  by (cases x) (simp_all add: py_error_def)

lemma pure_ok_py_get [simp]: "pure_ok (py_get x k d)"
  by (cases x) (simp_all add: py_error_def)

lemma pure_ok_py_iter [simp]: "pure_ok (py_iter x)"
  by (cases x) (simp_all add: py_error_def)

lemma pure_ok_py_lower [simp]: "pure_ok (py_lower x)"
  by (cases x) (simp_all add: py_error_def)

lemma pure_ok_remove_nulls [simp]: "pure_ok (remove_nulls x)"
  by (cases x) (simp_all add: py_error_def)

lemma pure_ok_rmap: "(\<And>x. pure_ok (f x)) \<Longrightarrow> pure_ok (rmap f xs)"
  by (induction xs) (simp_all add: pure_ok_rbind)

lemma pure_ok_rdict: "list_all (\<lambda>kv. pure_ok (snd kv)) kvs \<Longrightarrow> pure_ok (rdict kvs)"
  by (induction kvs rule: rdict.induct) (simp_all add: pure_ok_rbind)

lemma pure_ok_get_remove [simp]: "pure_ok (rbind (py_get x k d) remove_nulls)"
  by (simp add: pure_ok_rbind)

lemma pure_ok_point_text [simp]: "pure_ok (point_text p)"
  by (simp add: point_text_def pure_ok_rbind)

lemma pure_ok_ring_text [simp]: "pure_ok (ring_text p)"
  by (simp add: ring_text_def pure_ok_rbind pure_ok_rmap)

lemma pure_ok_geo_point [simp]: "pure_ok (geo_point p)"
  by (simp add: geo_point_def pure_ok_rbind)

lemma pure_ok_geo_polygon [simp]: "pure_ok (geo_polygon p)"
  by (simp add: geo_polygon_def pure_ok_rbind pure_ok_rmap)

lemma pure_ok_cases: "pure_ok r \<Longrightarrow> (\<And>e. r = Inl e \<Longrightarrow> py_error e \<Longrightarrow> P) \<Longrightarrow> (\<And>a. r = Inr a \<Longrightarrow> P) \<Longrightarrow> P"
  by (cases r) simp_all

lemma pure_ok_try_type:
  "pure_ok r \<Longrightarrow> pure_ok h \<Longrightarrow>
   pure_ok (case r of Inr g \<Rightarrow> Inr (f g) | Inl TypeError \<Rightarrow> h | Inl e \<Rightarrow> Inl e)"
  by (cases r) (auto split: error.splits simp: py_error_def)

lemma pure_ok_try_key:
  "pure_ok r \<Longrightarrow> pure_ok h \<Longrightarrow>
   pure_ok (case r of Inr g \<Rightarrow> Inr (f g) | Inl KeyError \<Rightarrow> h | Inl e \<Rightarrow> Inl e)"
  by (cases r) (auto split: error.splits simp: py_error_def)

lemma pure_ok_geo_of [simp]: "pure_ok (geo_of tweet)"
  unfolding geo_of_def
  by (intro pure_ok_try_type pure_ok_try_key pure_ok_rbind) simp_all

lemma pure_ok_text_of [simp]: "pure_ok (text_of tweet)"
  by (simp add: text_of_def split: sum.splits)

lemma pure_ok_catch:
  "pure_ok r \<Longrightarrow> pure_ok h \<Longrightarrow> pure_ok (case r of Inl KeyError \<Rightarrow> h | r' \<Rightarrow> r')"
  by (auto split: sum.splits error.splits)

lemma pure_ok_catch_type:
  "pure_ok r \<Longrightarrow> pure_ok h \<Longrightarrow> pure_ok (case r of Inl TypeError \<Rightarrow> h | r' \<Rightarrow> r')"
  by (auto split: sum.splits error.splits)

lemma pure_ok_country_code_of [simp]: "pure_ok (country_code_of tweet)"
  unfolding country_code_of_def
  by (rule pure_ok_catch_type) (simp_all add: pure_ok_rbind)

lemma pure_ok_state_code_of [simp]: "pure_ok (state_code_of tweet cc)"
  by (auto simp: state_code_of_def Let_def py_error_def intro!: pure_ok_rbind split: json.splits)

lemma pure_ok_place_name_of [simp]: "pure_ok (place_name_of tweet)"
  unfolding place_name_of_def
  by (rule pure_ok_catch_type) (simp_all add: pure_ok_rbind)

lemma pure_ok_entities_of [simp]: "pure_ok (entities_of tweet name)"
  unfolding entities_of_def
  by (rule pure_ok_catch) (simp_all add: pure_ok_rbind)

lemma pure_ok_both_tags [simp]: "pure_ok (both_tags e)"
  by (simp add: both_tags_def pure_ok_rbind)

lemma pure_ok_tag_text [simp]: "pure_ok (tag_text p t)"
  by (auto simp: tag_text_def py_error_def intro!: pure_ok_rbind split: json.splits)

lemma pure_ok_tags_of [simp]: "pure_ok (tags_of tweet)"
  unfolding tags_of_def
  by (intro pure_ok_rbind pure_ok_catch) (auto simp: pure_ok_rbind pure_ok_rmap)

lemma pure_ok_media_of [simp]: "pure_ok (media_of tweet)"
  unfolding media_of_def
  by (intro pure_ok_catch) (simp_all add: pure_ok_rbind)

lemma pure_ok_users_data [simp]: "pure_ok (users_data tweet user i)"
  unfolding users_data_def by (rule pure_ok_rdict) simp

lemma pure_ok_tweets_data [simp]: "pure_ok (tweets_data tweet user a b c d e)"
  unfolding tweets_data_def by (rule pure_ok_rdict) simp

lemma pure_ok_row_item [simp]: "pure_ok (row_item res i)"
  by (simp add: row_item_def py_error_def split: option.splits)


subsection \<open>Statements\<close>


lemma extends_refl [simp]: "extends rs rs"
  by (simp add: extends_def)

lemma extends_trans: "extends a b \<Longrightarrow> extends b c \<Longrightarrow> extends a c"
  by (auto simp: extends_def)

lemma extends_append [simp]: "extends rs (rs @ ys)"
  by (simp add: extends_def)

lemma extends_list_ex: "extends a b \<Longrightarrow> list_ex P a \<Longrightarrow> list_ex P b"
  by (auto simp: extends_def)

lemma extends_set: "extends a b \<Longrightarrow> r \<in> set a \<Longrightarrow> r \<in> set b"
  by (auto simp: extends_def)

lemma rows_of_with_rows: "rows_of t (with_rows t' rs d) = (if t = t' then rs else rows_of t d)"
  by (cases t; cases t'; simp)

lemma users_rows_of: "users d = rows_of Users d"
  by simp

lemma grows_refl: "grows uid d d"
  by (simp add: grows_def)

lemma grows_trans:
  assumes ab: "grows uid a b" and bc: "grows uid b c"
  shows "grows uid a c"
proof -
  have 1: "\<forall>t. t \<noteq> Users \<longrightarrow> extends (rows_of t a) (rows_of t c)"
    using ab bc unfolding grows_def by (meson extends_trans)
  have 2: "\<forall>r \<in> set (users a). \<not> sql_eq (col r ''id_users'') uid \<longrightarrow> r \<in> set (users c)"
    using ab bc unfolding grows_def by blast
  have 3: "\<forall>v. has_row Users ''id_users'' v a \<longrightarrow> has_row Users ''id_users'' v c"
    using ab bc unfolding grows_def by blast
  have 4: "\<forall>r \<in> set (users c). r \<in> set (users a) \<or> sql_eq (col r ''id_users'') uid \<or>
         \<not> has_row Users ''id_users'' (col r ''id_users'') a"
    using ab bc unfolding grows_def by blast
  from 1 2 3 4 show ?thesis unfolding grows_def by blast
qed

lemma grows_has_row:
  assumes "grows uid d d'" and "has_row t c v d" and "t \<noteq> Users \<or> c = ''id_users''"
  shows "has_row t c v d'"
proof (cases "t = Users")
  case True
  with assms show ?thesis by (auto simp: grows_def)
next
  case False
  with assms(1) have "extends (rows_of t d) (rows_of t d')" by (simp add: grows_def)
  then show ?thesis using assms(2) unfolding has_row_def by (rule extends_list_ex)
qed

lemma append_grows:
  assumes "t = Users \<longrightarrow> \<not> has_row Users ''id_users'' (col r ''id_users'') d"
  shows "grows uid d (with_rows t (rows_of t d @ [r]) d)"
  using assms unfolding grows_def has_row_def
  by (auto simp: rows_of_with_rows users_rows_of simp del: rows_of.simps)

lemma conflicts_users: "conflicts Users r d = has_row Users ''id_users'' (col r ''id_users'') d"
  by (simp add: conflicts_def has_row_def unique_keys_def)

lemma sql_eq_null [simp]: "sql_eq v JNull = False"
  by (simp add: sql_eq_def)


lemma consistent_iff: "consistent d = (\<forall>t. \<forall>r \<in> set (rows_of t d). references_ok t r d)"
proof -
  have "t \<in> set all_tables" for t
    by (cases t) (simp_all add: all_tables_def)
  then show ?thesis
    by (auto simp: consistent_def list_all_iff simp del: rows_of.simps)
qed

lemma references_ok_grows:
  assumes "grows uid d d'" and "references_ok t r d"
  shows "references_ok t r d'"
  using assms(2)
  by (cases t) (auto simp: references_ok_def intro: grows_has_row [OF assms(1)])

lemma evolves_refl [simp]: "evolves uid d d"
  by (simp add: evolves_def grows_refl)

lemma evolves_trans: "evolves uid a b \<Longrightarrow> evolves uid b c \<Longrightarrow> evolves uid a c"
  by (auto simp: evolves_def intro: grows_trans)

lemma evolves_has_row:
  assumes "evolves uid d d'" and "has_row t c v d" and "t \<noteq> Users \<or> c = ''id_users''"
  shows "has_row t c v d'"
  using assms grows_has_row by (auto simp: evolves_def)

lemma append_evolves:
  assumes "references_ok t r d"
    and "t = Users \<longrightarrow> \<not> has_row Users ''id_users'' (col r ''id_users'') d"
  shows "evolves uid d (with_rows t (rows_of t d @ [r]) d)"
proof -
  let ?d' = "with_rows t (rows_of t d @ [r]) d"
  have g: "grows uid d ?d'" using assms(2) by (rule append_grows)
  have "consistent ?d'" if c: "consistent d"
    unfolding consistent_iff
  proof (intro allI ballI)
    fix t0 r0
    assume "r0 \<in> set (rows_of t0 ?d')"
    then have "r0 \<in> set (rows_of t0 d) \<or> (t0 = t \<and> r0 = r)"
      by (auto simp: rows_of_with_rows simp del: rows_of.simps split: if_splits)
    with c assms(1) have "references_ok t0 r0 d"
      by (auto simp: consistent_iff simp del: rows_of.simps)
    then show "references_ok t0 r0 ?d'" by (rule references_ok_grows [OF g])
  qed
  with g show ?thesis by (simp add: evolves_def)
qed

lemma insert_row_evolves:
  assumes "insert_row t r d = Inr (res, d')"
  shows "evolves uid d d'"
proof (cases res)
  case None
  with assms have "d' = d"
    by (auto simp: insert_row_def Let_def split: if_splits)
  then show ?thesis by simp
next
  case (Some r')
  with assms have nc: "\<not> conflicts t r' d" and ok: "references_ok t r' d"
    and d': "d' = with_rows t (rows_of t d @ [r']) d"
    by (auto simp: insert_row_def Let_def split: if_splits)
  from nc have "t = Users \<longrightarrow> \<not> has_row Users ''id_users'' (col r' ''id_users'') d"
    by (auto simp: conflicts_users)
  with ok show ?thesis unfolding d' by (rule append_evolves)
qed

lemma insert_row_error:
  "insert_row t r d = Inl e \<Longrightarrow>
   e = NullCharacter \<or> e = NotNullViolation \<or>
   (e = ForeignKeyViolation \<and> \<not> references_ok t (with_defaults t r d) d)"
  by (auto simp: insert_row_def Let_def split: if_splits)

lemma sql_eq_refl: "v \<noteq> JNull \<Longrightarrow> sql_eq v v"
  by (simp add: sql_eq_def)

lemma insert_row_has_users:
  assumes "insert_row Users r d = Inr (res, d')"
  shows "has_row Users ''id_users'' (col r ''id_users'') d'"
  using assms
  by (auto simp: insert_row_def Let_def with_defaults_def conflicts_def unique_keys_def
      has_row_def sql_eq_refl split: if_splits)

lemma insert_row_has_tweets:
  assumes "insert_row Tweets r d = Inr (res, d')"
  shows "has_row Tweets ''id_tweets'' (col r ''id_tweets'') d'"
  using assms
  by (auto simp: insert_row_def Let_def with_defaults_def conflicts_def unique_keys_def
      has_row_def sql_eq_refl split: if_splits)

lemma col_overwrite: "map_of new c \<noteq> None \<Longrightarrow> col (overwrite new old) c = col new c"
  by (auto simp: col_def overwrite_def map_add_def split: option.splits)

lemma map_of_kept: "map_of (filter (\<lambda>kv. P (fst kv)) kvs) k = (if P k then map_of kvs k else None)"
  by (induction kvs) auto

lemma col_overwrite_None: "map_of new c = None \<Longrightarrow> col (overwrite new old) c = col old c"
  using map_of_kept [of "\<lambda>k. map_of new k = None" old c]
  by (simp add: col_def overwrite_def map_add_def split: option.splits)

lemma sql_eq_col_Some: "sql_eq a (col r c) \<Longrightarrow> map_of r c \<noteq> None"
  by (auto simp: sql_eq_def col_def split: option.splits)

lemma update_rows_evolves:
  assumes "update_rows Users r ''id_users'' d = Inr d'"
  shows "evolves (col r ''id_users'') d d'"
proof (cases "has_row Users ''id_users'' (col r ''id_users'') d")
  case False
  with assms show ?thesis by (simp add: update_rows_def split: if_splits)
next
  case True
  from assms True have okr: "references_ok Users r d"
    by (simp add: update_rows_def split: if_splits)
  let ?f = "\<lambda>r0. if sql_eq (col r0 ''id_users'') (col r ''id_users'') then overwrite r r0 else r0"
  from assms True have d': "d' = d\<lparr>users := map ?f (users d)\<rparr>"
    by (simp add: update_rows_def split: if_splits)
  have keep: "col (?f r0) ''id_users'' = col r0 ''id_users''" for r0
    using sql_eq_col_Some [of "col r0 ''id_users''" r "''id_users''"]
    by (auto simp: col_overwrite) (simp add: sql_eq_def)
  have a: "extends (rows_of t d) (rows_of t d')" if "t \<noteq> Users" for t
    using that by (cases t) (simp_all add: d')
  have b: "r0 \<in> set (users d')"
    if "r0 \<in> set (users d)" "\<not> sql_eq (col r0 ''id_users'') (col r ''id_users'')" for r0
  proof -
    from that have "?f r0 = r0" by simp
    with that(1) show ?thesis unfolding d' by (auto simp: image_iff intro!: bexI [of _ r0])
  qed
  have c: "has_row Users ''id_users'' v d'" if "has_row Users ''id_users'' v d" for v
  proof -
    from that obtain r0 where r0: "r0 \<in> set (users d)" "sql_eq (col r0 ''id_users'') v"
      by (auto simp: has_row_def list_ex_iff)
    then have "?f r0 \<in> set (users d')" "sql_eq (col (?f r0) ''id_users'') v"
      unfolding d' by (simp_all only: keep) (auto simp: image_iff)
    then show ?thesis by (auto simp: has_row_def list_ex_iff)
  qed
  have e: "r1 \<in> set (users d) \<or> sql_eq (col r1 ''id_users'') (col r ''id_users'')"
    if "r1 \<in> set (users d')" for r1
  proof -
    from that obtain r0 where r0: "r0 \<in> set (users d)" "r1 = ?f r0"
      by (auto simp: d')
    show ?thesis
    proof (cases "sql_eq (col r0 ''id_users'') (col r ''id_users'')")
      case True
      with keep [of r0] r0(2) show ?thesis by simp
    next
      case False
      with r0 show ?thesis by simp
    qed
  qed
  have g: "grows (col r ''id_users'') d d'"
    unfolding grows_def using a b c e by blast
  have "consistent d'" if cd: "consistent d"
    unfolding consistent_iff
  proof (intro allI ballI)
    fix t0 r1
    assume r1: "r1 \<in> set (rows_of t0 d')"
    have "references_ok t0 r1 d"
    proof (cases "t0 = Users")
      case False
      with r1 have "r1 \<in> set (rows_of t0 d)" by (cases t0) (simp_all add: d')
      with cd show ?thesis by (simp add: consistent_iff del: rows_of.simps)
    next
      case Users: True
      with r1 obtain r0 where r0: "r0 \<in> set (users d)" "r1 = ?f r0"
        by (auto simp: d')
      from cd r0(1) have ok0: "references_ok Users r0 d"
        by (simp add: consistent_iff users_rows_of del: rows_of.simps)
      have "references_ok Users (overwrite r r0) d"
      proof (cases "map_of r ''id_urls''")
        case None
        with ok0 show ?thesis by (simp add: references_ok_def col_overwrite_None)
      next
        case (Some v)
        with okr show ?thesis by (simp add: references_ok_def col_overwrite)
      qed
      with ok0 show ?thesis unfolding Users r0(2) by simp
    qed
    then show "references_ok t0 r1 d'" by (rule references_ok_grows [OF g])
  qed
  with g show ?thesis by (simp add: evolves_def)
qed

lemma update_rows_error:
  "update_rows t r wc d = Inl e \<Longrightarrow>
   e = NullCharacter \<or> (e = ForeignKeyViolation \<and> \<not> references_ok t r d)"
  by (auto simp: update_rows_def split: if_splits)

lemma foldr_max_ge: "(x::int) \<in> set xs \<Longrightarrow> x \<le> foldr max xs 0"
  by (induction xs) auto

lemma next_id_fresh: "r0 \<in> set rs \<Longrightarrow> col r0 ''id_urls'' \<noteq> JInt (next_id rs)"
proof
  assume r0: "r0 \<in> set rs" and eq: "col r0 ''id_urls'' = JInt (next_id rs)"
  from r0 have "id_of (col r0 ''id_urls'') \<in> set (map (\<lambda>r. id_of (col r ''id_urls'')) rs)"
    by auto
  then have "id_of (col r0 ''id_urls'') \<le> foldr max (map (\<lambda>r. id_of (col r ''id_urls'')) rs) 0"
    by (rule foldr_max_ge)
  with eq show False by (simp add: next_id_def)
qed


subsection \<open>Computations on a connection\<close>


lemma wp_sbind: "wp (sbind m f) Q E c = wp m (\<lambda>a. wp (f a) Q E) E c"
  by (simp add: wp_def sbind_def split: prod.splits sum.splits)

lemma wp_lift: "wp (lift r) Q E c = (case r of Inl e \<Rightarrow> E e c | Inr a \<Rightarrow> Q a c)"
  by (simp add: wp_def lift_def split: sum.splits)

lemma wp_mono:
  assumes "wp m Q E c" and "\<And>a c'. Q a c' \<Longrightarrow> Q' a c'" and "\<And>e c'. E e c' \<Longrightarrow> E' e c'"
  shows "wp m Q' E' c"
  using assms by (auto simp: wp_def split: prod.splits sum.splits)

lemma wp_pure:
  assumes "pure_ok r" and "\<And>e. py_error e \<Longrightarrow> E e c" and "\<And>a. r = Inr a \<Longrightarrow> Q a c"
  shows "wp (lift r) Q E c"
  using assms by (cases r) (simp_all add: wp_lift)

lemma wp_foreach_Nil: "wp (foreach body []) Q E c = Q () c"
  by (simp add: wp_def)

lemma wp_foreach_Cons:
  "wp (foreach body (x # xs)) Q E c = wp (body x) (\<lambda>_. wp (foreach body xs) Q E) E c"
  by (simp add: wp_def split: prod.splits sum.splits)

lemma wp_foreach:
  assumes "I c" and "\<And>x c. I c \<Longrightarrow> wp (body x) (\<lambda>_. I) E c"
  shows "wp (foreach body xs) (\<lambda>_. I) E c"
  using assms(1)
proof (induction xs arbitrary: c)
  case Nil
  then show ?case by (simp add: wp_def)
next
  case (Cons x xs)
  show ?case
    unfolding wp_foreach_Cons
    by (rule wp_mono [OF assms(2) [OF Cons.prems]]) (simp_all add: Cons.IH)
qed

lemma steps_refl: "pending c \<noteq> None \<Longrightarrow> steps uid c c"
  by (simp add: steps_def)

lemma steps_trans: "steps uid a b \<Longrightarrow> steps uid b c \<Longrightarrow> steps uid a c"
  by (auto simp: steps_def intro: evolves_trans)

lemma steps_pending: "steps uid c c' \<Longrightarrow> pending c' \<noteq> None"
  by (simp add: steps_def)

lemma steps_has_row:
  "steps uid c c' \<Longrightarrow> has_row t k v (current c) \<Longrightarrow> t \<noteq> Users \<or> k = ''id_users'' \<Longrightarrow>
   has_row t k v (current c')"
  unfolding steps_def by (blast intro: evolves_has_row)

lemma current_with_current [simp]: "current (with_current d c) = d"
  by (simp add: current_def with_current_def split: option.splits)

lemma with_current_current [simp]: "with_current (current c) c = c"
  by (simp add: current_def with_current_def split: option.splits)

lemma with_current_twice [simp]: "with_current d (with_current d' c) = with_current d c"
  by (simp add: with_current_def split: option.splits)

lemma pending_with_current [simp]: "(pending (with_current d c) = None) = (pending c = None)"
  by (simp add: with_current_def split: option.splits)

lemma committed_with_current: "pending c \<noteq> None \<Longrightarrow> committed (with_current d c) = committed c"
  by (auto simp: with_current_def)

lemma steps_update:
  "pending c \<noteq> None \<Longrightarrow> evolves uid (current c) d' \<Longrightarrow> steps uid c (with_current d' c)"
  by (simp add: steps_def committed_with_current)

lemma first_None: "(first rs = None) = (rs = [])"
  by (simp add: first_def split: list.splits)

lemma wp_select:
  assumes "\<And>rs. (first rs = None) = (\<not> has_row t wc v (current c)) \<Longrightarrow> Q rs c"
    and "E NullCharacter c"
  shows "wp (execute (Select rc t wc v)) Q E c"
proof (cases "has_null v")
  case True
  with assms(2) show ?thesis by (simp add: wp_def execute_def)
next
  case False
  let ?rs = "map (\<lambda>r. [col r rc]) (filter (\<lambda>r. sql_eq (col r wc) v) (rows_of t (current c)))"
  have "(first ?rs = None) = (\<not> has_row t wc v (current c))"
    by (auto simp: first_None has_row_def list_ex_iff filter_empty_conv)
  then have "Q ?rs c" by (rule assms(1))
  moreover have "execute (Select rc t wc v) c = (Inr ?rs, c)"
    using False by (simp add: execute_def)
  ultimately show ?thesis by (simp add: wp_def)
qed

lemma wp_insert:
  assumes "pending c \<noteq> None"
    and "\<And>rs c'. steps uid c c' \<Longrightarrow>
           (t = Users \<longrightarrow> has_row Users ''id_users'' (col r ''id_users'') (current c')) \<Longrightarrow>
           (t = Tweets \<longrightarrow> has_row Tweets ''id_tweets'' (col r ''id_tweets'') (current c')) \<Longrightarrow>
           Q rs c'"
    and "E NotNullViolation c \<and> E NullCharacter c"
    and "references_ok t (with_defaults t r (current c)) (current c) \<or> E ForeignKeyViolation c"
  shows "wp (execute (Insert t r)) Q E c"
proof (cases "insert_row t r (current c)")
  case (Inl e)
  with insert_row_error [OF Inl] assms(3,4) show ?thesis
    by (auto simp: wp_def execute_def)
next
  case (Inr p)
  obtain res d' where p: "p = (res, d')" by (cases p)
  let ?c' = "with_current d' c"
  have "steps uid c ?c'"
    using assms(1) insert_row_evolves [OF Inr [unfolded p]] by (rule steps_update)
  moreover have "t = Users \<longrightarrow> has_row Users ''id_users'' (col r ''id_users'') (current ?c')"
    using Inr p insert_row_has_users by auto
  moreover have "t = Tweets \<longrightarrow> has_row Tweets ''id_tweets'' (col r ''id_tweets'') (current ?c')"
    using Inr p insert_row_has_tweets by auto
  ultimately have "Q [] ?c'" by (rule assms(2))
  then show ?thesis by (simp add: wp_def execute_def Inr p)
qed

lemma wp_update_users:
  assumes "pending c \<noteq> None"
    and "\<And>rs c'. steps (col r ''id_users'') c c' \<Longrightarrow> Q rs c'"
    and "references_ok Users r (current c) \<or> E ForeignKeyViolation c"
    and "E NullCharacter c"
  shows "wp (execute (Update Users r ''id_users'')) Q E c"
proof (cases "update_rows Users r ''id_users'' (current c)")
  case (Inl e)
  with update_rows_error [OF Inl] assms(3,4) show ?thesis
    by (auto simp: wp_def execute_def)
next
  case (Inr d')
  have "steps (col r ''id_users'') c (with_current d' c)"
    using assms(1) update_rows_evolves [OF Inr] by (rule steps_update)
  then have "Q [] (with_current d' c)" by (rule assms(2))
  then show ?thesis by (simp add: wp_def execute_def Inr)
qed

subsection \<open>\<^verbatim>\<open>get_id_urls\<close> on the database\<close>

lemma conflicts_url_row: "conflicts Urls (url_row u d) d = has_row Urls ''url'' u d"
proof -
  have "\<not> sql_eq (col r0 ''id_urls'') (JInt (next_id (urls d)))" if "r0 \<in> set (urls d)" for r0
    using next_id_fresh [OF that] by (auto simp: sql_eq_def)
  then show ?thesis
    by (auto simp: conflicts_def unique_keys_def has_row_def list_ex_iff url_row_def col_def)
qed

lemma insert_row_urls:
  "insert_row Urls [(''url'', u)] d =
     (if has_null u then Inl NullCharacter
      else if has_row Urls ''url'' u d then Inr (None, d)
      else Inr (Some (url_row u d), d\<lparr>urls := urls d @ [url_row u d]\<rparr>))"
proof -
  have wd: "with_defaults Urls [(''url'', u)] d = url_row u d"
    by (simp add: with_defaults_def url_row_def)
  have nn: "col (url_row u d) ''id_urls'' \<noteq> JNull"
    by (simp add: url_row_def col_def)
  show ?thesis
    unfolding insert_row_def wd Let_def
    by (simp add: nn conflicts_url_row references_ok_def holds_null_def)
qed

lemma get_id_urls_null: "has_null u \<Longrightarrow> get_id_urls execute u c = (Inl NullCharacter, c)"
  by (simp add: get_id_urls_def sbind_def execute_def insert_row_urls)

lemma get_id_urls_store:
  assumes "\<not> has_null u"
  shows "get_id_urls execute u c =
     (if has_row Urls ''url'' u (current c)
      then (Inr (col (hd (filter (\<lambda>r. sql_eq (col r ''url'') u) (urls (current c)))) ''id_urls''), c)
      else (Inr (JInt (next_id (urls (current c)))),
            with_current ((current c)\<lparr>urls := urls (current c) @ [url_row u (current c)]\<rparr>) c))"
proof (cases "has_row Urls ''url'' u (current c)")
  case True
  then obtain r0 rs where f: "filter (\<lambda>r. sql_eq (col r ''url'') u) (urls (current c)) = r0 # rs"
    by (cases "filter (\<lambda>r. sql_eq (col r ''url'') u) (urls (current c))")
       (auto simp: has_row_def list_ex_iff filter_empty_conv)
  show ?thesis
    using True assms
    by (simp add: get_id_urls_def sbind_def lift_def execute_def insert_row_urls first_def
        row_item_def f)
next
  case False
  then show ?thesis
    using assms
    by (simp add: get_id_urls_def sbind_def lift_def execute_def insert_row_urls first_def
        row_item_def url_row_def col_def)
qed

lemma wp_get_id_urls:
  assumes "pending c \<noteq> None"
    and "\<And>i c'. steps uid c c' \<Longrightarrow> i = JNull \<or> has_row Urls ''id_urls'' i (current c') \<Longrightarrow> Q i c'"
    and "E NullCharacter c"
  shows "wp (get_id_urls execute u) Q E c"
proof (cases "has_null u")
  case True
  with assms(3) show ?thesis by (simp add: wp_def get_id_urls_null)
next
  case clean: False
  note get_id_urls_store = get_id_urls_store [OF clean]
  show ?thesis
proof (cases "has_row Urls ''url'' u (current c)")
  case True
  let ?r0 = "hd (filter (\<lambda>r. sql_eq (col r ''url'') u) (urls (current c)))"
  from True have "filter (\<lambda>r. sql_eq (col r ''url'') u) (urls (current c)) \<noteq> []"
    by (auto simp: has_row_def list_ex_iff filter_empty_conv)
  then have "?r0 \<in> set (filter (\<lambda>r. sql_eq (col r ''url'') u) (urls (current c)))"
    by (rule hd_in_set)
  then have "?r0 \<in> set (urls (current c))" by simp
  then have "col ?r0 ''id_urls'' = JNull \<or> has_row Urls ''id_urls'' (col ?r0 ''id_urls'') (current c)"
    by (auto simp: has_row_def list_ex_iff sql_eq_def)
  with steps_refl [OF assms(1)] have "Q (col ?r0 ''id_urls'') c" by (rule assms(2))
  with True show ?thesis by (simp add: wp_def get_id_urls_store)
next
  case False
  let ?d' = "(current c)\<lparr>urls := urls (current c) @ [url_row u (current c)]\<rparr>"
  have "evolves uid (current c)
      (with_rows Urls (rows_of Urls (current c) @ [url_row u (current c)]) (current c))"
    by (rule append_evolves) (simp_all add: references_ok_def)
  then have "evolves uid (current c) ?d'" by simp
  with assms(1) have "steps uid c (with_current ?d' c)" by (rule steps_update)
  moreover have "has_row Urls ''id_urls'' (JInt (next_id (urls (current c)))) (current (with_current ?d' c))"
    by (simp add: has_row_def url_row_def col_def sql_eq_def)
  ultimately have "Q (JInt (next_id (urls (current c)))) (with_current ?d' c)"
    by (intro assms(2)) simp_all
  with False show ?thesis by (simp add: wp_def get_id_urls_store)
qed
qed

subsection \<open>The sections of \<^verbatim>\<open>insert_tweet\<close>\<close>

lemma py_error_not_fk: "py_error e \<Longrightarrow> e \<noteq> ForeignKeyViolation"
  by (auto simp: py_error_def)

lemma wp_foreach_steps:
  assumes "pending c \<noteq> None"
    and "\<And>x c'. steps uid c c' \<Longrightarrow>
           wp (body x) (\<lambda>_ c''. steps uid c' c'')
             (\<lambda>e c''. e \<noteq> ForeignKeyViolation \<and> steps uid c' c'') c'"
  shows "wp (foreach body xs) (\<lambda>_ c'. steps uid c c')
           (\<lambda>e c'. e \<noteq> ForeignKeyViolation \<and> steps uid c c') c"
proof (rule wp_foreach [where I = "\<lambda>c'. steps uid c c'"])
  show "steps uid c c" using assms(1) by (rule steps_refl)
next
  fix x c'
  assume s: "steps uid c c'"
  show "wp (body x) (\<lambda>_ c'. steps uid c c') (\<lambda>e c'. e \<noteq> ForeignKeyViolation \<and> steps uid c c') c'"
    by (rule wp_mono [OF assms(2) [OF s]]) (auto intro: steps_trans [OF s])
qed

lemma references_ok_tweet_urls:
  "has_row Tweets ''id_tweets'' tid d \<Longrightarrow> i = JNull \<or> has_row Urls ''id_urls'' i d \<Longrightarrow>
   references_ok Tweet_urls [(''id_tweets'', tid), (''id_urls'', i)] d"
  by (auto simp: references_ok_def col_def)

lemma with_defaults_other [simp]: "t \<noteq> Urls \<Longrightarrow> with_defaults t r d = r"
  by (simp add: with_defaults_def)

lemma insert_tweet_url_wp:
  assumes p: "pending c \<noteq> None" and h: "has_row Tweets ''id_tweets'' tid (current c)"
  shows "wp (insert_tweet_url tid url) (\<lambda>_ c'. steps uid c c')
           (\<lambda>e c'. e \<noteq> ForeignKeyViolation \<and> steps uid c c') c"
  unfolding insert_tweet_url_def wp_sbind
  apply (rule wp_pure)
    apply simp
   apply (simp add: py_error_not_fk steps_refl p)
  apply (rule wp_get_id_urls [where uid = uid])
   apply (rule p)
  apply (rule wp_insert [where uid = uid])
     apply (erule steps_pending)
    apply (simp add: wp_lift)
    apply (erule (1) steps_trans)
   apply simp
  apply (rule disjI1)
  apply (simp del: rows_of.simps)
  apply (rule references_ok_tweet_urls)
   apply (erule steps_has_row)
    apply (rule h)
   apply simp
   apply assumption
  apply (simp add: steps_refl p)
  done


lemma py_item_get: "py_item x k = Inr v \<Longrightarrow> py_get x k d = Inr v"
  by (cases x) (auto split: option.splits)

lemma rdict_Inr:
  "rdict kvs = Inr row \<Longrightarrow> list_all2 (\<lambda>kr kv. fst kv = fst kr \<and> snd kr = Inr (snd kv)) kvs row"
proof (induction kvs arbitrary: row rule: rdict.induct)
  case 1
  then show ?case by simp
next
  case (2 k r kvs)
  then show ?case
    by (cases r; cases "rdict kvs") (auto simp: rbind_def)
qed

declare rdict.simps [simp del]

lemma insert_tweet_urls_wp:
  assumes p: "pending c \<noteq> None" and g: "py_get tweet ''id'' JNull = Inr tid"
    and h: "has_row Tweets ''id_tweets'' tid (current c)"
  shows "wp (insert_tweet_urls tweet) (\<lambda>_ c'. steps uid c c')
           (\<lambda>e c'. e \<noteq> ForeignKeyViolation \<and> steps uid c c') c"
  unfolding insert_tweet_urls_def wp_sbind
  apply (rule wp_pure, simp, simp add: py_error_not_fk steps_refl p)
  apply (rule wp_pure, simp, simp add: py_error_not_fk steps_refl p)
  apply (rule wp_pure, simp, simp add: py_error_not_fk steps_refl p)
  apply (rule wp_foreach_steps [OF p])
  apply (clarsimp simp: g)
  apply (rule insert_tweet_url_wp)
   apply (erule steps_pending)
  apply (erule steps_has_row)
   apply (rule h)
  apply simp
  done

lemma insert_tweet_mention_wp:
  assumes p: "pending c \<noteq> None" and g: "py_get tweet ''id'' JNull = Inr tid"
    and h: "has_row Tweets ''id_tweets'' tid (current c)"
  shows "wp (insert_tweet_mention tweet mention) (\<lambda>_ c'. steps uid c c')
           (\<lambda>e c'. e \<noteq> ForeignKeyViolation \<and> steps uid c c') c"
  unfolding insert_tweet_mention_def wp_sbind
  apply (rule wp_pure)
    apply (rule pure_ok_rdict, simp)
   apply (simp add: py_error_not_fk steps_refl p)
  apply (drule rdict_Inr)
  apply (clarsimp simp: list_all2_Cons1)
  apply (rule wp_insert [where uid = uid])
     apply (rule p)
    apply (rule wp_pure)
      apply (rule pure_ok_rdict, simp)
     apply (simp add: py_error_not_fk)
    apply (drule rdict_Inr)
    apply (clarsimp simp: list_all2_Cons1 g)
    apply (rule wp_insert [where uid = uid])
       apply (erule steps_pending)
      apply (simp add: wp_lift)
      apply (erule (1) steps_trans)
     apply simp
    apply (rule disjI1)
    apply (simp del: rows_of.simps add: references_ok_def col_def)
    apply (rule disjI2)
    apply (erule steps_has_row, rule h, simp)
   apply (simp add: steps_refl p)
  apply (rule disjI1)
  apply (simp add: references_ok_def col_def)
  done


lemma insert_tweet_mentions_wp:
  assumes p: "pending c \<noteq> None" and g: "py_get tweet ''id'' JNull = Inr tid"
    and h: "has_row Tweets ''id_tweets'' tid (current c)"
  shows "wp (insert_tweet_mentions tweet) (\<lambda>_ c'. steps uid c c')
           (\<lambda>e c'. e \<noteq> ForeignKeyViolation \<and> steps uid c c') c"
  unfolding insert_tweet_mentions_def wp_sbind
  apply (rule wp_pure, simp, simp add: py_error_not_fk steps_refl p)
  apply (rule wp_pure, simp, simp add: py_error_not_fk steps_refl p)
  apply (rule wp_foreach_steps [OF p])
  apply (rule insert_tweet_mention_wp [OF _ g])
   apply (erule steps_pending)
  apply (erule steps_has_row, rule h, simp)
  done

lemma insert_tweet_tag_wp:
  assumes p: "pending c \<noteq> None" and g: "py_get tweet ''id'' JNull = Inr tid"
    and h: "has_row Tweets ''id_tweets'' tid (current c)"
  shows "wp (insert_tweet_tag tweet tag) (\<lambda>_ c'. steps uid c c')
           (\<lambda>e c'. e \<noteq> ForeignKeyViolation \<and> steps uid c c') c"
  unfolding insert_tweet_tag_def wp_sbind
  apply (rule wp_pure)
    apply (rule pure_ok_rdict, simp)
   apply (simp add: py_error_not_fk steps_refl p)
  apply (drule rdict_Inr)
  apply (clarsimp simp: list_all2_Cons1 g)
  apply (rule wp_insert [where uid = uid])
     apply (rule p)
    apply (simp add: wp_lift)
   apply (simp add: steps_refl p)
  apply (rule disjI1)
  apply (simp del: rows_of.simps add: references_ok_def col_def h)
  done

lemma insert_tweet_tags_wp:
  assumes p: "pending c \<noteq> None" and g: "py_get tweet ''id'' JNull = Inr tid"
    and h: "has_row Tweets ''id_tweets'' tid (current c)"
  shows "wp (insert_tweet_tags tweet) (\<lambda>_ c'. steps uid c c')
           (\<lambda>e c'. e \<noteq> ForeignKeyViolation \<and> steps uid c c') c"
  unfolding insert_tweet_tags_def wp_sbind
  apply (rule wp_pure, simp, simp add: py_error_not_fk steps_refl p)
  apply (rule wp_foreach_steps [OF p])
  apply (rule insert_tweet_tag_wp [OF _ g])
   apply (erule steps_pending)
  apply (erule steps_has_row, rule h, simp)
  done

lemma insert_tweet_medium_wp:
  assumes p: "pending c \<noteq> None" and g: "py_get tweet ''id'' JNull = Inr tid"
    and h: "has_row Tweets ''id_tweets'' tid (current c)"
  shows "wp (insert_tweet_medium tweet medium) (\<lambda>_ c'. steps uid c c')
           (\<lambda>e c'. e \<noteq> ForeignKeyViolation \<and> steps uid c c') c"
  unfolding insert_tweet_medium_def wp_sbind
  apply (rule wp_pure, simp, simp add: py_error_not_fk steps_refl p)
  apply (rule wp_get_id_urls [where uid = uid])
   apply (rule p)
  apply (rule wp_pure)
    apply (rule pure_ok_rdict, simp)
   apply (simp add: py_error_not_fk)
  apply (drule rdict_Inr)
  apply (clarsimp simp: list_all2_Cons1 g)
  apply (rule wp_insert [where uid = uid])
     apply (erule steps_pending)
    apply (simp add: wp_lift)
    apply (erule (1) steps_trans)
   apply simp
   apply (rule disjI1)
   apply (simp del: rows_of.simps add: references_ok_def col_def)
   apply (rule disjI2)
   apply (erule steps_has_row, rule h, simp)
  apply (simp add: steps_refl p)
  done

lemma insert_tweet_media_wp:
  assumes p: "pending c \<noteq> None" and g: "py_get tweet ''id'' JNull = Inr tid"
    and h: "has_row Tweets ''id_tweets'' tid (current c)"
  shows "wp (insert_tweet_media tweet) (\<lambda>_ c'. steps uid c c')
           (\<lambda>e c'. e \<noteq> ForeignKeyViolation \<and> steps uid c c') c"
  unfolding insert_tweet_media_def wp_sbind
  apply (rule wp_pure, simp, simp add: py_error_not_fk steps_refl p)
  apply (rule wp_pure, simp, simp add: py_error_not_fk steps_refl p)
  apply (rule wp_foreach_steps [OF p])
  apply (rule insert_tweet_medium_wp [OF _ g])
   apply (erule steps_pending)
  apply (erule steps_has_row, rule h, simp)
  done


lemma insert_reply_user_wp:
  assumes p: "pending c \<noteq> None"
  shows "wp (insert_reply_user tweet)
           (\<lambda>_ c'. steps uid c c' \<and>
              (\<forall>reply. py_get tweet ''in_reply_to_user_id'' JNull = Inr reply \<longrightarrow>
                 reply = JNull \<or> has_row Users ''id_users'' reply (current c')))
           (\<lambda>e c'. e \<noteq> ForeignKeyViolation \<and> steps uid c c') c"
  unfolding insert_reply_user_def wp_sbind
  apply (rule wp_pure, simp, simp add: py_error_not_fk steps_refl p)
  apply (clarsimp simp: wp_sbind wp_lift steps_refl p)
  apply (rule wp_select)
   prefer 2
   apply (simp add: steps_refl p)
  apply (clarsimp simp: wp_sbind wp_lift steps_refl p)
  apply (rule wp_insert [where uid = uid])
     apply (rule p)
    apply (simp add: col_def wp_lift)
   apply (simp add: steps_refl p)
  apply (rule disjI1)
  apply (simp add: references_ok_def col_def)
  done

lemma tweets_data_cols:
  assumes "tweets_data tweet user t cc sc pn g = Inr data"
  shows "py_get tweet ''id'' JNull = Inr (col data ''id_tweets'')"
    and "py_get user ''id'' JNull = Inr (col data ''id_users'')"
    and "py_get tweet ''in_reply_to_user_id'' JNull = Inr (col data ''in_reply_to_user_id'')"
  using assms [unfolded tweets_data_def, THEN rdict_Inr]
  by (clarsimp simp: list_all2_Cons1 col_def)+

lemma users_data_cols:
  assumes "users_data tweet user i = Inr data"
  shows "py_get user ''id'' JNull = Inr (col data ''id_users'')"
    and "col data ''id_urls'' = i"
  using assms [unfolded users_data_def, THEN rdict_Inr]
  by (clarsimp simp: list_all2_Cons1 col_def)+

lemma references_ok_tweets:
  assumes "col r ''id_users'' = JNull \<or> has_row Users ''id_users'' (col r ''id_users'') d"
    and "col r ''in_reply_to_user_id'' = JNull \<or>
         has_row Users ''id_users'' (col r ''in_reply_to_user_id'') d"
  shows "references_ok Tweets r d"
  using assms by (simp add: references_ok_def)

lemma insert_tweets_wp:
  assumes p: "pending c \<noteq> None"
    and u: "\<And>v. py_get user ''id'' JNull = Inr v \<Longrightarrow>
              v = JNull \<or> has_row Users ''id_users'' v (current c)"
  shows "wp (insert_tweets tweet user)
           (\<lambda>_ c'. steps uid c c' \<and>
              (\<forall>tid. py_get tweet ''id'' JNull = Inr tid \<longrightarrow>
                 has_row Tweets ''id_tweets'' tid (current c')))
           (\<lambda>e c'. e \<noteq> ForeignKeyViolation \<and> steps uid c c') c"
  unfolding insert_tweets_def wp_sbind
  apply (rule wp_pure, simp, simp add: py_error_not_fk steps_refl p)
  apply (rule wp_pure, simp, simp add: py_error_not_fk steps_refl p)
  apply (rule wp_pure, simp, simp add: py_error_not_fk steps_refl p)
  apply (rule wp_pure, simp, simp add: py_error_not_fk steps_refl p)
  apply (rule wp_pure, simp, simp add: py_error_not_fk steps_refl p)
  apply (rule wp_mono [OF insert_reply_user_wp [OF p, where uid = uid]])
   prefer 2
   apply assumption
  apply (rule wp_pure, simp, simp add: py_error_not_fk)
  apply (frule tweets_data_cols(1), frule tweets_data_cols(2), frule tweets_data_cols(3))
  apply (rule wp_insert [where uid = uid])
     apply (erule conjE, erule steps_pending)
    apply (clarsimp simp: wp_lift)
    apply (erule (1) steps_trans)
   apply simp
  apply (rule disjI1)
  apply (simp del: rows_of.simps)
  apply (rule references_ok_tweets)
   apply (drule u)
   apply (erule disjE, erule disjI1)
   apply (rule disjI2)
   apply (erule conjE)
   apply (erule steps_has_row, assumption, simp)
  apply blast
  done


lemma wp_user_url:
  assumes "pending c \<noteq> None"
    and "\<And>i c'. steps uid c c' \<Longrightarrow> i = JNull \<or> has_row Urls ''id_urls'' i (current c') \<Longrightarrow> Q i c'"
    and "E NullCharacter c"
  shows "wp (if url = JNull then lift (Inr JNull) else get_id_urls execute url) Q E c"
proof (cases "url = JNull")
  case True
  have "Q JNull c" by (rule assms(2) [OF steps_refl [OF assms(1)]]) simp
  with True show ?thesis by (simp add: wp_lift)
next
  case False
  from assms have "wp (get_id_urls execute url) Q E c" by (rule wp_get_id_urls)
  with False show ?thesis by simp
qed

lemma poster_id_eq:
  assumes "rbind (py_item tweet ''user'') (\<lambda>u. py_item u ''url'') = Inr url"
    and "py_get tweet ''user'' d = Inr user"
    and "py_item user ''id'' = Inr idu"
  shows "poster_id tweet = idu"
proof (cases "py_item tweet ''user''")
  case (Inl e)
  with assms(1) show ?thesis by (simp add: rbind_def)
next
  case (Inr u0)
  from py_item_get [OF Inr, of d] assms(2) have "user = u0" by simp
  with Inr assms(3) show ?thesis by (simp add: poster_id_def rbind_def)
qed

lemma references_ok_users:
  "col r ''id_urls'' = JNull \<or> has_row Urls ''id_urls'' (col r ''id_urls'') d \<Longrightarrow>
   references_ok Users r d"
  by (simp add: references_ok_def)

lemma insert_users_wp:
  assumes p: "pending c \<noteq> None"
  shows "wp (insert_users tweet)
           (\<lambda>user c'. steps (poster_id tweet) c c' \<and>
              (\<forall>v. py_get user ''id'' JNull = Inr v \<longrightarrow>
                 v = JNull \<or> has_row Users ''id_users'' v (current c')))
           (\<lambda>e c'. e \<noteq> ForeignKeyViolation \<and> steps (poster_id tweet) c c') c"
  unfolding insert_users_def wp_sbind
  apply (rule wp_pure)
    apply (simp add: pure_ok_rbind)
   apply (simp add: py_error_not_fk steps_refl p)
  apply (rule wp_user_url [where uid = "poster_id tweet"], rule p)
   prefer 2
   apply (simp add: steps_refl p)
  apply (rule wp_pure, simp, simp add: py_error_not_fk)
  apply (rule wp_pure, simp, simp add: py_error_not_fk)
  apply (rule wp_select)
   prefer 2
   apply (simp add: steps_refl p)
  apply (rule wp_pure, simp, simp add: py_error_not_fk)
  apply (frule users_data_cols(1), frule users_data_cols(2))
  apply (frule (2) poster_id_eq)
  apply (frule_tac d = JNull in py_item_get)
  apply (case_tac "first rs = None")
   apply simp
   apply (rule wp_insert [where uid = "poster_id tweet"])
      apply (erule steps_pending)
     apply (clarsimp simp: wp_lift)
     apply (erule (1) steps_trans)
    apply simp
   apply (rule disjI1)
   apply (simp del: rows_of.simps)
   apply (rule references_ok_users)
   apply simp
  apply simp
  apply (rule wp_update_users)
    apply (erule steps_pending)
   apply (clarsimp simp: wp_lift)
   apply (rule conjI)
    apply (erule (1) steps_trans)
   apply (rule disjI2)
   apply (erule steps_has_row, assumption, simp)
   apply (rule disjI1)
   apply (rule references_ok_users)
   apply simp
  apply simp
  done


lemma wp_seq_steps:
  assumes "steps uid c0 c"
    and "wp m (\<lambda>a c'. steps uid c c' \<and> P a c') (\<lambda>e c'. e \<noteq> ForeignKeyViolation \<and> steps uid c c') c"
    and "\<And>a c'. steps uid c0 c' \<Longrightarrow> steps uid c c' \<Longrightarrow> P a c' \<Longrightarrow> Q a c'"
  shows "wp m Q (\<lambda>e c'. e \<noteq> ForeignKeyViolation \<and> steps uid c0 c') c"
  by (rule wp_mono [OF assms(2)]) (auto intro: assms(3) steps_trans [OF assms(1)])

lemma wp_seq_steps0:
  assumes "steps uid c0 c"
    and "wp m (\<lambda>a c'. steps uid c c') (\<lambda>e c'. e \<noteq> ForeignKeyViolation \<and> steps uid c c') c"
    and "\<And>a c'. steps uid c0 c' \<Longrightarrow> steps uid c c' \<Longrightarrow> Q a c'"
  shows "wp m Q (\<lambda>e c'. e \<noteq> ForeignKeyViolation \<and> steps uid c0 c') c"
  by (rule wp_mono [OF assms(2)]) (auto intro: assms(3) steps_trans [OF assms(1)])

lemma insert_associations_wp:
  assumes p: "pending c \<noteq> None" and g: "py_get tweet ''id'' JNull = Inr tid"
    and h: "has_row Tweets ''id_tweets'' tid (current c)"
  shows "wp (sbind (insert_tweet_urls tweet) (\<lambda>_.
             sbind (insert_tweet_mentions tweet) (\<lambda>_.
             sbind (insert_tweet_tags tweet) (\<lambda>_.
             sbind (insert_tweet_media tweet) (\<lambda>_.
             lift (Inr Inserted))))))
           (\<lambda>_ c'. steps uid c c')
           (\<lambda>e c'. e \<noteq> ForeignKeyViolation \<and> steps uid c c') c"
proof -
  have here: "pending c' \<noteq> None \<and> has_row Tweets ''id_tweets'' tid (current c')"
    if "steps uid c c'" for c'
    using that h by (auto dest: steps_pending intro: steps_has_row)
  show ?thesis
    apply (subst wp_sbind)
    apply (rule wp_seq_steps0 [OF steps_refl [OF p] insert_tweet_urls_wp [OF p g h]])
    apply (subst wp_sbind)
    apply (rule wp_seq_steps0 [OF _ insert_tweet_mentions_wp [OF _ g]])
       apply assumption
      apply (simp add: here)
     apply (simp add: here)
    apply (subst wp_sbind)
    apply (rule wp_seq_steps0 [OF _ insert_tweet_tags_wp [OF _ g]])
       apply assumption
      apply (simp add: here)
     apply (simp add: here)
    apply (subst wp_sbind)
    apply (rule wp_seq_steps0 [OF _ insert_tweet_media_wp [OF _ g]])
       apply assumption
      apply (simp add: here)
     apply (simp add: here)
    apply (simp add: wp_lift)
    done
qed

lemma steps_has_tweet:
  "steps uid c c' \<Longrightarrow> has_row Tweets k v (current c) \<Longrightarrow> has_row Tweets k v (current c')"
  by (erule steps_has_row) simp_all

lemma insert_tweet_block_wp:
  assumes p: "pending c \<noteq> None"
  shows "wp (insert_tweet_block tweet)
           (\<lambda>out c'. steps (poster_id tweet) c c' \<and>
              (\<exists>tid. py_item tweet ''id'' = Inr tid \<and> has_row Tweets ''id_tweets'' tid (current c')))
           (\<lambda>e c'. e \<noteq> ForeignKeyViolation \<and> steps (poster_id tweet) c c') c"
  unfolding insert_tweet_block_def
  apply (subst wp_sbind)
  apply (rule wp_pure, simp, simp add: py_error_not_fk steps_refl p)
  apply (subst wp_sbind)
  apply (rule wp_select)
   prefer 2
   apply (simp add: steps_refl p)
  apply (case_tac "first rs = None")
   prefer 2
   apply (simp add: wp_lift steps_refl p)
  apply simp
  apply (frule_tac d = JNull in py_item_get)
  apply (subst wp_sbind)
  apply (rule wp_seq_steps [OF steps_refl [OF p] insert_users_wp [OF p]])
  apply (subst wp_sbind)
  apply (rule wp_seq_steps [OF _ insert_tweets_wp])
     apply assumption
    apply (erule steps_pending)
   apply blast
  apply (rule wp_seq_steps0 [OF _ insert_associations_wp])
      apply assumption
     apply (erule steps_pending)
    apply assumption
   apply blast
  apply (rule conjI, assumption)
  apply (blast intro: steps_has_tweet)
  done


lemma execute_select_eq:
  "\<not> has_null v \<Longrightarrow>
   execute (Select rc t wc v) c =
     (Inr (map (\<lambda>r. [col r rc]) (filter (\<lambda>r. sql_eq (col r wc) v) (rows_of t (current c)))), c)"
  by (simp add: execute_def)

lemma select_first:
  "(first (map (\<lambda>r. [col r rc]) (filter (\<lambda>r. sql_eq (col r wc) v) (rows_of t d))) = None)
     = (\<not> has_row t wc v d)"
  by (auto simp: first_None has_row_def list_ex_iff filter_empty_conv)

lemma insert_tweet_block_null:
  "py_item tweet ''id'' = Inr tid \<Longrightarrow> has_null tid \<Longrightarrow>
   insert_tweet_block tweet c = (Inl NullCharacter, c)"
  by (simp add: insert_tweet_block_def sbind_def lift_def execute_def)

lemma insert_tweet_block_skip:
  assumes "py_item tweet ''id'' = Inr tid" and "has_row Tweets ''id_tweets'' tid (current c)"
    and "\<not> has_null tid"
  shows "insert_tweet_block tweet c = (Inr SkippedAlreadyPresent, c)"
    and "insert_tweet_block tweet c =
           sbind (execute (Select ''id_tweets'' Tweets ''id_tweets'' tid))
             (\<lambda>_. lift (Inr SkippedAlreadyPresent)) c"
  using assms
  by (simp_all add: insert_tweet_block_def sbind_def lift_def execute_select_eq select_first
      del: rows_of.simps)

lemma conn_begin_simps [simp]:
  "pending (conn_begin c) = Some (committed c)"
  "committed (conn_begin c) = committed c"
  "current (conn_begin c) = committed c"
  by (simp_all add: conn_begin_def current_def)

lemma insert_tweet_result:
  obtains (failed) e c1 where "insert_tweet_block tweet (conn_begin c) = (Inl e, c1)"
      "insert_tweet c tweet = (Inl e, rollback c1)"
      "e \<noteq> ForeignKeyViolation" "steps (poster_id tweet) (conn_begin c) c1"
  | (returned) out c1 tid where "insert_tweet_block tweet (conn_begin c) = (Inr out, c1)"
      "insert_tweet c tweet = (Inr out, commit c1)"
      "steps (poster_id tweet) (conn_begin c) c1"
      "py_item tweet ''id'' = Inr tid" "has_row Tweets ''id_tweets'' tid (current c1)"
proof -
  have p: "pending (conn_begin c) \<noteq> None" by simp
  obtain r c1 where b: "insert_tweet_block tweet (conn_begin c) = (r, c1)"
    by (cases "insert_tweet_block tweet (conn_begin c)")
  show thesis
  proof (cases r)
    case (Inl e)
    with insert_tweet_block_wp [OF p, of tweet] b
    have "e \<noteq> ForeignKeyViolation" "steps (poster_id tweet) (conn_begin c) c1"
      by (simp_all add: wp_def)
    moreover have "insert_tweet c tweet = (Inl e, rollback c1)"
      by (simp add: insert_tweet_def b Inl)
    ultimately show thesis using b Inl by (intro failed) simp_all
  next
    case (Inr out)
    with insert_tweet_block_wp [OF p, of tweet] b
    obtain tid where "steps (poster_id tweet) (conn_begin c) c1"
      "py_item tweet ''id'' = Inr tid" "has_row Tweets ''id_tweets'' tid (current c1)"
      by (auto simp: wp_def)
    moreover have "insert_tweet c tweet = (Inr out, commit c1)"
      by (simp add: insert_tweet_def b Inr)
    ultimately show thesis using b Inr by (intro returned) simp_all
  qed
qed

subsection \<open>The row of the author\<close>






lemma wp_conj:
  "wp m Q E c \<Longrightarrow> wp m Q' E' c \<Longrightarrow> wp m (\<lambda>a c'. Q a c' \<and> Q' a c') (\<lambda>e c'. E e c' \<and> E' e c') c"
  by (simp add: wp_def split: sum.splits prod.splits)










lemma steps_commit:
  assumes "steps uid (conn_begin c) c1"
  shows "commit c1 = \<lparr>committed = current c1, pending = None\<rparr>"
    and "rollback c1 = \<lparr>committed = committed c, pending = None\<rparr>"
    and "evolves uid (committed c) (current c1)"
  using assms
  by (auto simp: steps_def commit_def rollback_def current_def split: option.splits)

section \<open>Properties of \<^verbatim>\<open>insert_tweet\<close>\<close>

text \<open>
  C1. Loading a record again after a load that returned leaves the storage as it is and
  takes the early \<^verbatim>\<open>return\<close>: the second run of \<^verbatim>\<open>insert_tweet\<close> returns
  \<open>SkippedAlreadyPresent\<close> with the connection unchanged, and its block is the lookup of
  the tweet's identity in \<^verbatim>\<open>tweets\<close> followed by the \<^verbatim>\<open>return\<close>, with no other statement.
\<close>

theorem second_load_skips:
  assumes "insert_tweet c tweet = (Inr out, c')"
  shows "insert_tweet c' tweet = (Inr SkippedAlreadyPresent, c') \<and>
         (\<exists>id_tweets. py_item tweet ''id'' = Inr id_tweets \<and>
            insert_tweet_block tweet (conn_begin c') =
              sbind (execute (Select ''id_tweets'' Tweets ''id_tweets'' id_tweets))
                (\<lambda>_. lift (Inr SkippedAlreadyPresent)) (conn_begin c'))"
proof (cases rule: insert_tweet_result [where c = c and tweet = tweet])
  case (failed e c1)
  with assms show ?thesis by simp
next
  case (returned out' c1 tid)
  with assms have c': "c' = \<lparr>committed = current c1, pending = None\<rparr>"
    by (simp add: steps_commit(1))
  have h: "has_row Tweets ''id_tweets'' tid (current (conn_begin c'))"
    using returned(5) by (simp add: c')
  have n: "\<not> has_null tid"
    using insert_tweet_block_null [OF returned(4), of "conn_begin c"] returned(1) by auto
  have "commit (conn_begin c') = c'"
    by (simp add: c' commit_def conn_begin_def)
  then have "insert_tweet c' tweet = (Inr SkippedAlreadyPresent, c')"
    by (simp add: insert_tweet_def insert_tweet_block_skip(1) [OF returned(4) h n])
  with insert_tweet_block_skip(2) [OF returned(4) h n] returned(4) show ?thesis by blast
qed

theorem second_load_skips_witness:
  "fst (insert_tweet idle example_tweet) = Inr Inserted \<and>
   insert_tweet (snd (insert_tweet idle example_tweet)) example_tweet =
     (Inr SkippedAlreadyPresent, snd (insert_tweet idle example_tweet))"
proof -
  have f: "fst (insert_tweet idle example_tweet) = Inr Inserted"
    by code_simp
  then have "insert_tweet idle example_tweet = (Inr Inserted, snd (insert_tweet idle example_tweet))"
    by (simp add: prod_eq_iff)
  from second_load_skips [OF this] f show ?thesis by blast
qed

text \<open>
  C2. All statements of \<^verbatim>\<open>insert_tweet\<close> run inside the transaction its block opens: the
  block never moves what is committed. When an exception leaves the block, whatever the
  statement or expression that raised it, the transaction is rolled back, and a connection
  that was outside a transaction is exactly as it was before the call: no row written by an
  earlier step of the same call stays.
\<close>

theorem failure_rolls_back:
  assumes "pending c = None" and "fst (insert_tweet c tweet) = Inl e"
  shows "snd (insert_tweet c tweet) = c \<and>
         committed (snd (insert_tweet_block tweet (conn_begin c))) = committed c"
proof (cases rule: insert_tweet_result [where c = c and tweet = tweet])
  case (failed e' c1)
  have "rollback c1 = c"
    using assms(1) by (simp add: steps_commit(2) [OF failed(4)])
  moreover have "committed c1 = committed c"
    using failed(4) by (simp add: steps_def)
  ultimately show ?thesis by (simp add: failed(1,2))
next
  case (returned out c1 tid)
  with assms show ?thesis by simp
qed

theorem failure_rolls_back_witness:
  "fst (insert_tweet idle failing_tweet) = Inl NotNullViolation \<and>
   length (users (current (snd (insert_tweet_block failing_tweet (conn_begin idle))))) = 3 \<and>
   length (tweets (current (snd (insert_tweet_block failing_tweet (conn_begin idle))))) = 1 \<and>
   length (tweet_urls (current (snd (insert_tweet_block failing_tweet (conn_begin idle))))) = 1 \<and>
   snd (insert_tweet idle failing_tweet) = idle"
proof -
  have p: "pending idle = None"
    by (simp add: idle_def)
  have f: "fst (insert_tweet idle failing_tweet) = Inl NotNullViolation"
    by code_simp
  have "length (users (current (snd (insert_tweet_block failing_tweet (conn_begin idle))))) = 3"
    by code_simp
  moreover have "length (tweets (current (snd (insert_tweet_block failing_tweet (conn_begin idle))))) = 1"
    by code_simp
  moreover have "length (tweet_urls (current (snd (insert_tweet_block failing_tweet (conn_begin idle))))) = 1"
    by code_simp
  ultimately show ?thesis
    using failure_rolls_back [OF p f] f by simp
qed

text \<open>
  C3. Every reference is satisfied when the row that holds it is written. The database
  checks the foreign keys of a row at the moment the row is written and refuses a row that
  refers to a missing one; \<^verbatim>\<open>insert_tweet\<close> never meets that refusal, on any tweet and any
  database: the author's row and the stub of the user answered are written before the
  row of \<^verbatim>\<open>tweets\<close>, the stub of a mentioned user before its row of \<^verbatim>\<open>tweet_mentions\<close>,
  and each URL is resolved to a row of \<^verbatim>\<open>urls\<close> before its row of \<^verbatim>\<open>tweet_urls\<close> or
  \<^verbatim>\<open>tweet_media\<close>. So a load of a tweet into a consistent database, whether it returns or
  fails, leaves a committed database in which every reference of every row names a row.
\<close>

theorem no_foreign_key_violation:
  "fst (insert_tweet c tweet) \<noteq> Inl ForeignKeyViolation \<and>
   (consistent (committed c) \<longrightarrow> consistent (committed (snd (insert_tweet c tweet))))"
proof (cases rule: insert_tweet_result [where c = c and tweet = tweet])
  case (failed e c1)
  then show ?thesis by (simp add: steps_commit(2))
next
  case (returned out c1 tid)
  from steps_commit(3) [OF returned(3)]
  have "consistent (committed c) \<longrightarrow> consistent (current c1)" by (simp add: evolves_def)
  with returned show ?thesis by (simp add: steps_commit(1))
qed

theorem no_foreign_key_violation_witness:
  "fst (insert_tweet idle example_tweet) \<noteq> Inl ForeignKeyViolation \<and>
   consistent (committed idle) \<and>
   consistent (committed (snd (insert_tweet idle example_tweet))) \<and>
   map (\<lambda>r. col r ''id_users'') (users (committed (snd (insert_tweet idle example_tweet)))) =
     [JInt 1, JInt 2, JInt 3] \<and>
   map (\<lambda>r. col r ''in_reply_to_user_id'') (tweets (committed (snd (insert_tweet idle example_tweet)))) =
     [JInt 2] \<and>
   map (\<lambda>r. col r ''id_users'') (tweet_mentions (committed (snd (insert_tweet idle example_tweet)))) =
     [JInt 3]"
proof -
  have a: "consistent (committed idle)"
    by code_simp
  have b: "map (\<lambda>r. col r ''id_users'') (users (committed (snd (insert_tweet idle example_tweet)))) =
     [JInt 1, JInt 2, JInt 3]"
    by code_simp
  have c: "map (\<lambda>r. col r ''in_reply_to_user_id'') (tweets (committed (snd (insert_tweet idle example_tweet)))) =
     [JInt 2]"
    by code_simp
  have d: "map (\<lambda>r. col r ''id_users'') (tweet_mentions (committed (snd (insert_tweet idle example_tweet)))) =
     [JInt 3]"
    by code_simp
  from no_foreign_key_violation [of idle example_tweet] a b c d show ?thesis by simp
qed




section \<open>Properties of \<^verbatim>\<open>get_id_urls\<close>\<close>

lemma get_id_urls_times_found:
  assumes "\<not> has_null u" and "has_row Urls ''url'' u (current c)"
  shows "get_id_urls_times n u c =
     (replicate n (Inr (col (hd (filter (\<lambda>r. sql_eq (col r ''url'') u) (urls (current c)))) ''id_urls'')), c)"
  using assms by (induction n) (simp_all add: get_id_urls_store)

lemma get_id_urls_times_null:
  "has_null u \<Longrightarrow> get_id_urls_times n u c = (replicate n (Inl NullCharacter), c)"
  by (induction n) (simp_all add: get_id_urls_null)

lemma sql_eq_JStr [simp]: "sql_eq v (JStr s) = (v = JStr s)"
  by (auto simp: sql_eq_def)

lemma has_row_count:
  "has_row Urls ''url'' u d = (filter (\<lambda>r. sql_eq (col r ''url'') u) (urls d) \<noteq> [])"
  by (auto simp: has_row_def list_ex_iff filter_empty_conv)

text \<open>
  C6, as the code has it. Calling \<^verbatim>\<open>get_id_urls\<close> any number of times in a row with the same
  URL string that does not hold the null character returns the same identity every time
  and writes at most one row: the table gains at most one row, and after the calls it
  holds one row with that URL if it held none before, and as many as before otherwise.
  With a URL string that holds the null character, which \<^verbatim>\<open>get_id_urls\<close> hands to the
  database as it is, every call is refused: no identity is returned and no row is written.
\<close>

theorem get_id_urls_deduplicates:
  "(CHR 0x00 \<notin> set s \<longrightarrow>
      (\<exists>i. fst (get_id_urls_times n (JStr s) c) = replicate n (Inr i) \<and>
         length (urls (current (snd (get_id_urls_times n (JStr s) c))))
           \<le> Suc (length (urls (current c))) \<and>
         length (filter (\<lambda>r. col r ''url'' = JStr s) (urls (current (snd (get_id_urls_times n (JStr s) c)))))
           = (if n = 0 then length (filter (\<lambda>r. col r ''url'' = JStr s) (urls (current c)))
              else max 1 (length (filter (\<lambda>r. col r ''url'' = JStr s) (urls (current c))))))) \<and>
   (CHR 0x00 \<in> set s \<longrightarrow>
      get_id_urls_times n (JStr s) c = (replicate n (Inl NullCharacter), c))"
proof (intro conjI impI)
  assume "CHR 0x00 \<in> set s"
  then show "get_id_urls_times n (JStr s) c = (replicate n (Inl NullCharacter), c)"
    by (simp add: get_id_urls_times_null)
next
  assume "CHR 0x00 \<notin> set s"
  then have clean: "\<not> has_null (JStr s)" by simp
  show "\<exists>i. fst (get_id_urls_times n (JStr s) c) = replicate n (Inr i) \<and>
         length (urls (current (snd (get_id_urls_times n (JStr s) c))))
           \<le> Suc (length (urls (current c))) \<and>
         length (filter (\<lambda>r. col r ''url'' = JStr s) (urls (current (snd (get_id_urls_times n (JStr s) c)))))
           = (if n = 0 then length (filter (\<lambda>r. col r ''url'' = JStr s) (urls (current c)))
              else max 1 (length (filter (\<lambda>r. col r ''url'' = JStr s) (urls (current c)))))"
  proof (cases n)
    case 0
    then show ?thesis by simp
  next
    case (Suc m)
    let ?u = "JStr s"
    let ?d = "current c"
    show ?thesis
    proof (cases "has_row Urls ''url'' ?u ?d")
      case True
      then have "filter (\<lambda>r. col r ''url'' = JStr s) (urls ?d) \<noteq> []"
        by (simp add: has_row_count)
      then have "1 \<le> length (filter (\<lambda>r. col r ''url'' = JStr s) (urls ?d))"
        by (cases "filter (\<lambda>r. col r ''url'' = JStr s) (urls ?d)") simp_all
      then show ?thesis
        by (simp add: get_id_urls_times_found [OF clean True] Suc max_def)
    next
      case False
      then have empty: "filter (\<lambda>r. col r ''url'' = JStr s) (urls ?d) = []"
        by (simp add: has_row_count)
      let ?d1 = "?d\<lparr>urls := urls ?d @ [url_row ?u ?d]\<rparr>"
      let ?c1 = "with_current ?d1 c"
      have first_call: "get_id_urls execute ?u c = (Inr (JInt (next_id (urls ?d))), ?c1)"
        using False by (simp add: get_id_urls_store [OF clean])
      have mine: "col (url_row ?u ?d) ''url'' = JStr s"
        "col (url_row ?u ?d) ''id_urls'' = JInt (next_id (urls ?d))"
        by (simp_all add: url_row_def col_def)
      have f1: "filter (\<lambda>r. col r ''url'' = JStr s) (urls ?d1) = [url_row ?u ?d]"
        by (simp add: empty mine)
      then have present: "has_row Urls ''url'' ?u (current ?c1)"
        by (simp add: has_row_count)
      have rest: "get_id_urls_times m ?u ?c1 = (replicate m (Inr (JInt (next_id (urls ?d)))), ?c1)"
        using get_id_urls_times_found [OF clean present, of m] f1 by (simp add: mine)
      show ?thesis
        by (rule exI [of _ "JInt (next_id (urls ?d))"])
           (simp add: Suc first_call rest empty mine)
    qed
  qed
qed

theorem get_id_urls_deduplicates_witness:
  "fst (get_id_urls_times 3 (JStr ''http://a.example'') idle) = [Inr (JInt 1), Inr (JInt 1), Inr (JInt 1)] \<and>
   map (\<lambda>r. col r ''url'') (urls (current (snd (get_id_urls_times 3 (JStr ''http://a.example'') idle))))
     = [JStr ''http://a.example''] \<and>
   get_id_urls_times 3 (JStr [CHR ''a'', CHR 0x00]) idle =
     ([Inl NullCharacter, Inl NullCharacter, Inl NullCharacter], idle)"
proof -
  have a: "fst (get_id_urls_times 3 (JStr ''http://a.example'') idle) ! 0 = Inr (JInt 1)"
    by code_simp
  have b: "map (\<lambda>r. col r ''url'') (urls (current (snd (get_id_urls_times 3 (JStr ''http://a.example'') idle))))
     = [JStr ''http://a.example'']"
    by code_simp
  have clean: "CHR 0x00 \<notin> set ''http://a.example''"
    by simp
  have null: "CHR 0x00 \<in> set [CHR ''a'', CHR 0x00]"
    by simp
  from get_id_urls_deduplicates [where s = "''http://a.example''" and n = 3 and c = idle] clean
  obtain i where "fst (get_id_urls_times 3 (JStr ''http://a.example'') idle) = replicate 3 (Inr i)"
    by blast
  with a have "fst (get_id_urls_times 3 (JStr ''http://a.example'') idle) = replicate 3 (Inr (JInt 1))"
    by (simp add: numeral_3_eq_3)
  moreover from get_id_urls_deduplicates [where s = "[CHR ''a'', CHR 0x00]" and n = 3 and c = idle] null
  have "get_id_urls_times 3 (JStr [CHR ''a'', CHR 0x00]) idle = (replicate 3 (Inl NullCharacter), idle)"
    by blast
  ultimately show ?thesis using b by (simp add: numeral_3_eq_3)
qed

text \<open>
  C6 as the specification states it fails on a URL string that holds the null character:
  two calls with the same string return no identity, each is refused, and the table has no
  row for the string.
\<close>

theorem get_id_urls_null_counterexample:
  "fst (get_id_urls_times 2 (JStr [CHR ''a'', CHR 0x00]) idle) =
     [Inl NullCharacter, Inl NullCharacter] \<and>
   urls (current (snd (get_id_urls_times 2 (JStr [CHR ''a'', CHR 0x00]) idle))) = []"
  by code_simp

text \<open>
  C5, as the code has it. On the database \<^verbatim>\<open>get_id_urls\<close> returns, for every URL string that
  does not hold the null character, the identity of a row of \<^verbatim>\<open>urls\<close> that holds the URL;
  a URL string that holds the null character is refused by the database, the refusal leaves
  the function as it is and no row is written. On any connection, when the insert returns
  no row and the lookup that follows returns no row either, the function ends there with
  the \<^verbatim>\<open>TypeError\<close> of \<^verbatim>\<open>res[0]\<close>, in the state the lookup left: the two statements are all
  it executes.
\<close>

theorem get_id_urls_resolves:
  "(CHR 0x00 \<notin> set s \<longrightarrow>
      (\<exists>i c'. get_id_urls execute (JStr s) c = (Inr i, c') \<and>
         list_ex (\<lambda>r. col r ''url'' = JStr s \<and> col r ''id_urls'' = i) (urls (current c')))) \<and>
   (CHR 0x00 \<in> set s \<longrightarrow> get_id_urls execute (JStr s) c = (Inl NullCharacter, c)) \<and>
   (exec (Insert_returning Urls [(''url'', url)] ''id_urls'') c0 = (Inr [], c1) \<and>
    exec (Select ''id_urls'' Urls ''url'' url) c1 = (Inr [], c2) \<longrightarrow>
      get_id_urls exec url c0 = (Inl TypeError, c2))"
proof (intro conjI impI)
  let ?u = "JStr s"
  let ?d = "current c"
  assume "CHR 0x00 \<notin> set s"
  then have clean: "\<not> has_null (JStr s)" by simp
  show "\<exists>i c'. get_id_urls execute ?u c = (Inr i, c') \<and>
      list_ex (\<lambda>r. col r ''url'' = JStr s \<and> col r ''id_urls'' = i) (urls (current c'))"
  proof (cases "has_row Urls ''url'' ?u ?d")
    case True
    let ?r0 = "hd (filter (\<lambda>r. sql_eq (col r ''url'') ?u) (urls ?d))"
    from True have "filter (\<lambda>r. sql_eq (col r ''url'') ?u) (urls ?d) \<noteq> []"
      by (simp add: has_row_count)
    then have "?r0 \<in> set (filter (\<lambda>r. sql_eq (col r ''url'') ?u) (urls ?d))"
      by (rule hd_in_set)
    then have "?r0 \<in> set (urls ?d)" "col ?r0 ''url'' = JStr s"
      by simp_all
    then have "list_ex (\<lambda>r. col r ''url'' = JStr s \<and> col r ''id_urls'' = col ?r0 ''id_urls'') (urls ?d)"
      by (auto simp: list_ex_iff)
    with True show ?thesis by (simp add: get_id_urls_store [OF clean])
  next
    case False
    then show ?thesis
      by (simp add: get_id_urls_store [OF clean] url_row_def col_def)
  qed
next
  assume "CHR 0x00 \<in> set s"
  then show "get_id_urls execute (JStr s) c = (Inl NullCharacter, c)"
    by (simp add: get_id_urls_null)
next
  assume "exec (Insert_returning Urls [(''url'', url)] ''id_urls'') c0 = (Inr [], c1) \<and>
    exec (Select ''id_urls'' Urls ''url'' url) c1 = (Inr [], c2)"
  then show "get_id_urls exec url c0 = (Inl TypeError, c2)"
    by (simp add: get_id_urls_def sbind_def lift_def first_def row_item_def)
qed

theorem get_id_urls_resolves_witness:
  "get_id_urls execute (JStr ''http://a.example'') idle =
     (Inr (JInt 1),
      \<lparr>committed = no_rows\<lparr>urls := [[(''id_urls'', JInt 1), (''url'', JStr ''http://a.example'')]]\<rparr>,
       pending = None\<rparr>) \<and>
   get_id_urls execute (JStr [CHR ''a'', CHR 0x00]) idle = (Inl NullCharacter, idle) \<and>
   get_id_urls silent (JStr ''u'') 0 = (Inl TypeError, 2)"
proof -
  have a: "get_id_urls execute (JStr ''http://a.example'') idle =
     (Inr (JInt 1),
      \<lparr>committed = no_rows\<lparr>urls := [[(''id_urls'', JInt 1), (''url'', JStr ''http://a.example'')]]\<rparr>,
       pending = None\<rparr>)"
    by code_simp
  have b: "silent (Insert_returning Urls [(''url'', JStr ''u'')] ''id_urls'') 0 = (Inr [], 1) \<and>
    silent (Select ''id_urls'' Urls ''url'' (JStr ''u'')) 1 = (Inr [], 2)"
    by (simp add: silent_def)
  have clean: "CHR 0x00 \<notin> set ''http://a.example''"
    by simp
  have null: "CHR 0x00 \<in> set [CHR ''a'', CHR 0x00]"
    by simp
  from get_id_urls_resolves [where s = "[CHR ''a'', CHR 0x00]" and c = idle and exec = silent
      and url = "JStr ''u''" and ?c0.0 = 0 and ?c1.0 = 1 and ?c2.0 = 2] null b
  have "get_id_urls execute (JStr [CHR ''a'', CHR 0x00]) idle = (Inl NullCharacter, idle)"
    "get_id_urls silent (JStr ''u'') 0 = (Inl TypeError, 2)"
    by blast+
  moreover from get_id_urls_resolves [where s = "''http://a.example''" and c = idle and exec = silent
      and url = "JStr ''u''" and ?c0.0 = 0 and ?c1.0 = 1 and ?c2.0 = 2] clean
  have "\<exists>i c'. get_id_urls execute (JStr ''http://a.example'') idle = (Inr i, c')"
    by blast
  ultimately show ?thesis using a by simp
qed

text \<open>
  C5 as the specification states it fails: on a connection that returns no row the
  function raises \<^verbatim>\<open>TypeError\<close>, not a resolution error of its own, after two statements,
  the insert and one lookup; the lookup is not tried again.
\<close>

theorem get_id_urls_no_retry_counterexample:
  "get_id_urls silent (JStr ''u'') 0 = (Inl TypeError, 2)"
  by (simp add: get_id_urls_def sbind_def lift_def first_def row_item_def silent_def)

section \<open>Properties of the normalization\<close>

lemma point_text_pair: "point_text (JArr (x # y # zs)) = Inr (py_str x @ '' '' @ py_str y)"
  by (simp add: point_text_def rbind_def)

lemma concat_join: "concat (map (\<lambda>p. p @ sep) ps) @ x = join sep (ps @ [x])"
proof (induction ps)
  case Nil
  show ?case by simp
next
  case (Cons p ps)
  then show ?case by (cases ps) simp_all
qed

lemma rmap_vertices:
  "rmap point_text (map (\<lambda>v. JArr [fst v, snd v]) vs) = Inr (map vertex_text vs)"
  by (induction vs) (simp_all add: point_text_pair vertex_text_def rbind_def)

lemma ring_text_closed:
  assumes "vs \<noteq> []"
  shows "ring_text (ring_json vs) = Inr (closed_ring vs)"
proof -
  from assms obtain v vs' where vs: "vs = v # vs'" by (cases vs) auto
  have "py_index (ring_json vs) 0 = Inr (JArr [fst v, snd v])"
    by (simp add: ring_json_def vs)
  moreover have "concat (map (\<lambda>p. p @ '','') (map vertex_text vs)) @ vertex_text v
      = join '','' (map vertex_text (vs @ [hd vs]))"
    by (simp only: concat_join) (simp add: vs)
  ultimately show ?thesis
    by (simp add: ring_text_def closed_ring_def rbind_def ring_json_def [of vs] rmap_vertices
        point_text_pair vertex_text_def)
qed

lemma rmap_rings:
  "list_all (\<lambda>vs. vs \<noteq> []) rings \<Longrightarrow>
   rmap ring_text (map ring_json rings) = Inr (map closed_ring rings)"
  by (induction rings) (simp_all add: ring_text_closed rbind_def)

lemma geo_point_null:
  "py_item tweet ''geo'' = Inr JNull \<or>
   (\<exists>g. py_item tweet ''geo'' = Inr g \<and> py_item g ''coordinates'' = Inr JNull) \<Longrightarrow>
   geo_point tweet = Inl TypeError"
  by (auto simp: geo_point_def rbind_def point_text_def)

text \<open>
  The order of priority of the geometry, for the tweets on which the block returns. With a
  pair of coordinates under \<^verbatim>\<open>geo\<close> the result is the point, whatever the place holds.
  Without one (\<^verbatim>\<open>geo\<close> or its coordinates are \<^verbatim>\<open>None\<close>) and with a bounding box of
  non-empty rings, the result is the polygon whose rings are each closed by their first
  vertex. Without a point, and with no \<^verbatim>\<open>place\<close> key or a place without \<^verbatim>\<open>bounding_box\<close> key,
  the result is \<^verbatim>\<open>None\<close>, the explicit unknown, when the author has \<^verbatim>\<open>geo_enabled\<close>, and
  otherwise the empty str \<^verbatim>\<open>geo\<close> was initialised with.
\<close>

lemma geo_of_priority:
  "(py_item tweet ''geo'' = Inr g \<and> py_item g ''coordinates'' = Inr (JArr (x # y # zs)) \<longrightarrow>
      geo_of tweet = Inr (JStr (''POINT('' @ py_str x @ '' '' @ py_str y @ '')''))) \<and>
   ((py_item tweet ''geo'' = Inr JNull \<or>
     (\<exists>g. py_item tweet ''geo'' = Inr g \<and> py_item g ''coordinates'' = Inr JNull)) \<and>
    py_item tweet ''place'' = Inr place \<and> py_item place ''bounding_box'' = Inr box \<and>
    py_item box ''coordinates'' = Inr (JArr (map ring_json rings)) \<and>
    list_all (\<lambda>vs. vs \<noteq> []) rings \<longrightarrow>
      geo_of tweet = Inr (JStr (''POLYGON('' @ join '','' (map closed_ring rings) @ '')''))) \<and>
   ((py_item tweet ''geo'' = Inr JNull \<or>
     (\<exists>g. py_item tweet ''geo'' = Inr g \<and> py_item g ''coordinates'' = Inr JNull)) \<and>
    (py_item tweet ''place'' = Inl KeyError \<or>
     (\<exists>p. py_item tweet ''place'' = Inr p \<and> py_item p ''bounding_box'' = Inl KeyError)) \<and>
    py_item tweet ''user'' = Inr user \<and> py_item user ''geo_enabled'' = Inr enabled \<longrightarrow>
      geo_of tweet = Inr (if py_truth enabled then JNull else JStr []))"
proof (intro conjI impI)
  assume "py_item tweet ''geo'' = Inr g \<and> py_item g ''coordinates'' = Inr (JArr (x # y # zs))"
  then have "geo_point tweet = Inr (''POINT('' @ py_str x @ '' '' @ py_str y @ '')'')"
    by (simp add: geo_point_def rbind_def point_text_pair)
  then show "geo_of tweet = Inr (JStr (''POINT('' @ py_str x @ '' '' @ py_str y @ '')''))"
    by (simp add: geo_of_def)
next
  assume a: "(py_item tweet ''geo'' = Inr JNull \<or>
     (\<exists>g. py_item tweet ''geo'' = Inr g \<and> py_item g ''coordinates'' = Inr JNull)) \<and>
    py_item tweet ''place'' = Inr place \<and> py_item place ''bounding_box'' = Inr box \<and>
    py_item box ''coordinates'' = Inr (JArr (map ring_json rings)) \<and>
    list_all (\<lambda>vs. vs \<noteq> []) rings"
  then have "geo_point tweet = Inl TypeError" by (intro geo_point_null) simp
  moreover from a have
    "geo_polygon tweet = Inr (''POLYGON('' @ join '','' (map closed_ring rings) @ '')'')"
    by (simp add: geo_polygon_def rbind_def rmap_rings)
  ultimately show "geo_of tweet = Inr (JStr (''POLYGON('' @ join '','' (map closed_ring rings) @ '')''))"
    by (simp add: geo_of_def)
next
  assume a: "(py_item tweet ''geo'' = Inr JNull \<or>
     (\<exists>g. py_item tweet ''geo'' = Inr g \<and> py_item g ''coordinates'' = Inr JNull)) \<and>
    (py_item tweet ''place'' = Inl KeyError \<or>
     (\<exists>p. py_item tweet ''place'' = Inr p \<and> py_item p ''bounding_box'' = Inl KeyError)) \<and>
    py_item tweet ''user'' = Inr user \<and> py_item user ''geo_enabled'' = Inr enabled"
  then have "geo_point tweet = Inl TypeError" by (intro geo_point_null) simp
  moreover from a have "geo_polygon tweet = Inl KeyError"
    by (auto simp: geo_polygon_def rbind_def)
  ultimately show "geo_of tweet = Inr (if py_truth enabled then JNull else JStr [])"
    using a by (simp add: geo_of_def rbind_def)
qed

lemma geo_of_priority_example:
  "geo_of point_tweet = Inr (JStr ''POINT(30.25 -97.75)'') \<and>
   geo_of example_tweet = Inr (JStr ''POLYGON((1.5 2,3 -4,5 6,1.5 2))'') \<and>
   geo_of boxless_tweet = Inr JNull"
proof -
  have p: "py_item point_tweet ''geo'' = Inr (JObj [(''coordinates'', JArr [JFloat ''30.25'', JFloat ''-97.75''])])
      \<and> py_item (JObj [(''coordinates'', JArr [JFloat ''30.25'', JFloat ''-97.75''])]) ''coordinates''
          = Inr (JArr (JFloat ''30.25'' # JFloat ''-97.75'' # []))"
    by (simp add: point_tweet_def)
  have "geo_of point_tweet = Inr (JStr ''POINT(30.25 -97.75)'')"
    using geo_of_priority [THEN conjunct1, rule_format, OF p] by (simp add: py_str_def)
  moreover
  have q: "(py_item example_tweet ''geo'' = Inr JNull \<or>
     (\<exists>g. py_item example_tweet ''geo'' = Inr g \<and> py_item g ''coordinates'' = Inr JNull)) \<and>
    py_item example_tweet ''place'' = Inr example_place \<and>
    py_item example_place ''bounding_box'' =
      Inr (JObj [(''coordinates'',
         JArr [ring_json [(JFloat ''1.5'', JInt 2), (JInt 3, JInt (- 4)), (JInt 5, JInt 6)]])]) \<and>
    py_item (JObj [(''coordinates'',
         JArr [ring_json [(JFloat ''1.5'', JInt 2), (JInt 3, JInt (- 4)), (JInt 5, JInt 6)]])]) ''coordinates''
      = Inr (JArr (map ring_json [[(JFloat ''1.5'', JInt 2), (JInt 3, JInt (- 4)), (JInt 5, JInt 6)]])) \<and>
    list_all (\<lambda>vs. vs \<noteq> []) [[(JFloat ''1.5'', JInt 2), (JInt 3, JInt (- 4)), (JInt 5, JInt 6)]]"
    by (simp add: example_tweet_def example_place_def)
  have r: "''POLYGON('' @ join '','' (map closed_ring
      [[(JFloat ''1.5'', JInt 2), (JInt 3, JInt (- 4)), (JInt 5, JInt 6)]]) @ '')''
      = ''POLYGON((1.5 2,3 -4,5 6,1.5 2))''"
    by code_simp
  have "geo_of example_tweet = Inr (JStr ''POLYGON((1.5 2,3 -4,5 6,1.5 2))'')"
    using geo_of_priority [THEN conjunct2, THEN conjunct1, rule_format, OF q] by (simp only: r)
  moreover
  have s: "(py_item boxless_tweet ''geo'' = Inr JNull \<or>
     (\<exists>g. py_item boxless_tweet ''geo'' = Inr g \<and> py_item g ''coordinates'' = Inr JNull)) \<and>
    (py_item boxless_tweet ''place'' = Inl KeyError \<or>
     (\<exists>p. py_item boxless_tweet ''place'' = Inr p \<and> py_item p ''bounding_box'' = Inl KeyError)) \<and>
    py_item boxless_tweet ''user'' = Inr example_user \<and>
    py_item example_user ''geo_enabled'' = Inr (JBool True)"
    by (simp add: boxless_tweet_def example_user_def)
  have "geo_of boxless_tweet = Inr JNull"
    using geo_of_priority [THEN conjunct2, THEN conjunct2, rule_format, OF s] by simp
  ultimately show ?thesis by simp
qed


text \<open>
  C7 fails on the tweets that have neither a point nor a place, when the place is \<^verbatim>\<open>None\<close>
  as the platform sends it: \<^verbatim>\<open>tweet['place']['bounding_box']\<close> raises \<^verbatim>\<open>TypeError\<close> inside
  the handler of the first \<^verbatim>\<open>TypeError\<close>, where only \<^verbatim>\<open>KeyError\<close> is caught, so the rules
  for \<^verbatim>\<open>geo_enabled\<close> are not reached and the exception leaves \<^verbatim>\<open>insert_tweet\<close>. The blocks
  for the country code and the place name, a few lines below, do catch this \<^verbatim>\<open>TypeError\<close>.
\<close>

theorem geo_of_null_place_raises:
  "py_item placeless_tweet ''geo'' = Inr JNull \<and>
   py_item placeless_tweet ''place'' = Inr JNull \<and>
   rbind (py_item placeless_tweet ''user'') (\<lambda>u. py_item u ''geo_enabled'') = Inr (JBool True) \<and>
   geo_of placeless_tweet = Inl TypeError \<and>
   country_code_of placeless_tweet = Inr JNull \<and>
   place_name_of placeless_tweet = Inr JNull \<and>
   fst (insert_tweet idle placeless_tweet) = Inl TypeError"
  by code_simp





section \<open>Properties of the sanitizer\<close>

lemma replace_from_null_filter:
  "replace_from [CHR 0x00] [] s = filter (\<lambda>c. c \<noteq> CHR 0x00) s"
proof (induction s)
  case Nil
  show ?case by (subst replace_from.simps) simp
next
  case (Cons c cs)
  show ?case
  proof (cases "c = CHR 0x00")
    case True
    then show ?thesis
      by (subst replace_from.simps) (simp add: Cons.IH)
  next
    case False
    then show ?thesis
      by (subst replace_from.simps) (simp add: Cons.IH)
  qed
qed

lemma replace_null_filter:
  "replace s [CHR 0x00] [] = filter (\<lambda>c. c \<noteq> CHR 0x00) s"
  by (simp add: replace_def replace_from_null_filter)

text \<open>
  C9. The sanitizer maps \<^verbatim>\<open>None\<close> to \<^verbatim>\<open>None\<close>. Applied to a str it returns the str made of
  the characters of the input other than the null character, in their order: every null
  character is removed, and no other character is changed, added or removed.
\<close>

theorem remove_nulls_removes_exactly_nulls:
  "remove_nulls JNull = Inr JNull \<and>
   remove_nulls (JStr s) = Inr (JStr (filter (\<lambda>c. c \<noteq> CHR 0x00) s))"
  by (simp add: replace_null_filter)

theorem remove_nulls_removes_exactly_nulls_witness:
  "remove_nulls JNull = Inr JNull \<and>
   remove_nulls (JStr (''hello'' @ [CHR 0x00] @ '' world'')) = Inr (JStr ''hello world'')"
  using remove_nulls_removes_exactly_nulls [of "''hello'' @ [CHR 0x00] @ '' world''"]
  by simp

text \<open>
  C10. Sanitizing twice is sanitizing once: on \<^verbatim>\<open>None\<close> and on every str, applying
  \<^verbatim>\<open>remove_nulls\<close> to its own result returns that result, and the result of sanitizing a
  str holds no null character.
\<close>

theorem remove_nulls_idempotent:
  "rbind (remove_nulls JNull) remove_nulls = remove_nulls JNull \<and>
   rbind (remove_nulls (JStr s)) remove_nulls = remove_nulls (JStr s) \<and>
   (\<exists>r. remove_nulls (JStr s) = Inr (JStr r) \<and> CHR 0x00 \<notin> set r)"
  by (simp add: rbind_def replace_null_filter)

theorem remove_nulls_idempotent_witness:
  "rbind (remove_nulls (JStr [CHR 0x00, CHR ''a'', CHR 0x00])) remove_nulls = Inr (JStr ''a'')"
  using remove_nulls_idempotent [of "[CHR 0x00, CHR ''a'', CHR 0x00]"]
  by (simp add: replace_null_filter)

end
